theory Spec2Isabelle
  imports Complex_Main "HOL-Library.Sublist"
begin

section \<open>Python values used by \<^verbatim>\<open>scripts/rules/morph_model.py\<close>\<close>

text \<open>
  A Python \<^verbatim>\<open>str\<close> is a sequence of Unicode code points, and \<^verbatim>\<open>len\<close> counts code
  points. The corpus is Cyrillic, so a string is modelled as a list of code points
  (natural numbers); \<open>ascii\<close> embeds the ASCII literals of the source.
\<close>

type_synonym pychar = nat
type_synonym pystr = "pychar list"

definition ascii :: "string \<Rightarrow> pystr" where
  "ascii s = map of_char s"

text \<open>
  The elements of a label list are Python objects: a \<^verbatim>\<open>str\<close>, or \<^verbatim>\<open>None\<close> (the
  value of \<^verbatim>\<open>MorphemeLabel.NONE\<close>).
\<close>

datatype pyval = PyStr pystr | PyNone

text \<open>The exceptions the modelled functions can raise.\<close>

datatype error =
    IndexError
  | TypeError
  | AttributeError
  | ValueError
  | KeyError
  | Exception_Unknown_class pystr
  | ZeroDivisionError

text \<open>\<^verbatim>\<open>'lit' + v\<close>: concatenation of a literal with an object; \<^verbatim>\<open>None\<close> raises TypeError.\<close>

definition str_add :: "pystr \<Rightarrow> pyval \<Rightarrow> error + pystr" where
  "str_add lit v = (case v of PyStr s \<Rightarrow> Inr (lit @ s) | PyNone \<Rightarrow> Inl TypeError)"

section \<open>The label vocabulary and the data model\<close>

datatype MorphemeLabel = UNKN | PREF | ROOT | SUFF | END | LINK | HYPH | POSTFIX | NONE

text \<open>\<^verbatim>\<open>label.value\<close> of the enum.\<close>

fun label_value :: "MorphemeLabel \<Rightarrow> pyval" where
  "label_value UNKN = PyStr (ascii ''UNKN'')"
| "label_value PREF = PyStr (ascii ''PREF'')"
| "label_value ROOT = PyStr (ascii ''ROOT'')"
| "label_value SUFF = PyStr (ascii ''SUFF'')"
| "label_value END = PyStr (ascii ''END'')"
| "label_value LINK = PyStr (ascii ''LINK'')"
| "label_value HYPH = PyStr (ascii ''HYPH'')"
| "label_value POSTFIX = PyStr (ascii ''POSTFIX'')"
| "label_value NONE = PyNone"

text \<open>
  \<^verbatim>\<open>class Morpheme\<close>: the five attributes that \<^verbatim>\<open>__init__\<close> sets. \<open>length_m\<close> is the
  attribute \<^verbatim>\<open>length\<close>.
\<close>

record Morpheme =
  part_text :: pystr
  length_m :: nat
  begin_pos :: int
  label :: MorphemeLabel
  end_pos :: int

definition Morpheme_init :: "pystr \<Rightarrow> MorphemeLabel \<Rightarrow> int \<Rightarrow> Morpheme" where
  "Morpheme_init text lab pos =
     \<lparr> part_text = text,
       length_m = length text,
       begin_pos = pos,
       label = lab,
       end_pos = pos + int (length text) \<rparr>"

text \<open>\<^verbatim>\<open>Morpheme.__len__\<close>.\<close>

definition Morpheme_len :: "Morpheme \<Rightarrow> nat" where
  "Morpheme_len m = length_m m"

text \<open>
  \<^verbatim>\<open>Morpheme.get_labels\<close>. The slice \<^verbatim>\<open>part_text[1:-1]\<close> is \<open>butlast (tl t)\<close>; it is empty
  for texts of length 0, 1 and 2.
\<close>

definition Morpheme_get_labels :: "Morpheme \<Rightarrow> error + pyval list" where
  "Morpheme_get_labels m =
     (if length_m m = 1 then
        (case str_add (ascii ''S-'') (label_value (label m)) of
           Inl e \<Rightarrow> Inl e
         | Inr s \<Rightarrow> Inr [PyStr s])
      else
        (case str_add (ascii ''B-'') (label_value (label m)) of
           Inl e \<Rightarrow> Inl e
         | Inr b \<Rightarrow>
            (case str_add (ascii ''M-'') (label_value (label m)) of
               Inl e \<Rightarrow> Inl e
             | Inr mid \<Rightarrow>
                (case str_add (ascii ''E-'') (label_value (label m)) of
                   Inl e \<Rightarrow> Inl e
                 | Inr e \<Rightarrow>
                     Inr ([PyStr b]
                          @ map (\<lambda>_. PyStr mid) (butlast (tl (part_text m)))
                          @ [PyStr e])))))"

text \<open>
  \<^verbatim>\<open>Morpheme.get_simple_labels\<close>. In the first branch the label is one of SUFF, PREF,
  ROOT; in the second \<^verbatim>\<open>[value] * length\<close> repeats the value, also when it is \<^verbatim>\<open>None\<close>.
\<close>

definition Morpheme_get_simple_labels :: "Morpheme \<Rightarrow> error + pyval list" where
  "Morpheme_get_simple_labels m =
     (if label m = SUFF \<or> label m = PREF \<or> label m = ROOT then
        (case str_add (ascii ''B-'') (label_value (label m)) of
           Inl e \<Rightarrow> Inl e
         | Inr b \<Rightarrow>
             Inr ([PyStr b]
                  @ (if length_m m > 1
                     then map (\<lambda>_. label_value (label m)) (tl (part_text m))
                     else [])))
      else Inr (replicate (length_m m) (label_value (label m))))"

text \<open>\<^verbatim>\<open>class Word\<close>.\<close>

record Word =
  morphemes :: "Morpheme list"
  sp :: pystr

definition Word_init :: "Morpheme list \<Rightarrow> pystr \<Rightarrow> Word" where
  "Word_init ms speech_part = \<lparr> morphemes = ms, sp = speech_part \<rparr>"

text \<open>
  The loops of \<^verbatim>\<open>Word.get_labels\<close> and \<^verbatim>\<open>Word.get_simple_labels\<close>:
  \<^verbatim>\<open>result += morpheme.get_labels()\<close> for each morpheme, in order; an exception of a
  morpheme ends the loop.
\<close>

fun get_labels_loop :: "Morpheme list \<Rightarrow> pyval list \<Rightarrow> error + pyval list" where
  "get_labels_loop [] result = Inr result"
| "get_labels_loop (m # ms) result =
     (case Morpheme_get_labels m of
        Inl e \<Rightarrow> Inl e
      | Inr ls \<Rightarrow> get_labels_loop ms (result @ ls))"

definition Word_get_labels :: "Word \<Rightarrow> error + pyval list" where
  "Word_get_labels w = get_labels_loop (morphemes w) []"

fun get_simple_labels_loop :: "Morpheme list \<Rightarrow> pyval list \<Rightarrow> error + pyval list" where
  "get_simple_labels_loop [] result = Inr result"
| "get_simple_labels_loop (m # ms) result =
     (case Morpheme_get_simple_labels m of
        Inl e \<Rightarrow> Inl e
      | Inr ls \<Rightarrow> get_simple_labels_loop ms (result @ ls))"

definition Word_get_simple_labels :: "Word \<Rightarrow> error + pyval list" where
  "Word_get_simple_labels w = get_simple_labels_loop (morphemes w) []"

text \<open>\<^verbatim>\<open>Word.__len__\<close>: \<^verbatim>\<open>sum(len(m) for m in self.morphemes)\<close>.\<close>

definition Word_len :: "Word \<Rightarrow> nat" where
  "Word_len w = sum_list (map Morpheme_len (morphemes w))"

section \<open>The corpus line parser\<close>

text \<open>String primitives: \<^verbatim>\<open>s.count(c)\<close> and \<^verbatim>\<open>s.split(c)\<close> for a one-character
  separator, and the substring test \<^verbatim>\<open>sub in s\<close>. \<^verbatim>\<open>split\<close> always returns at least
  one field.\<close>

definition str_count :: "pychar \<Rightarrow> pystr \<Rightarrow> nat" where
  "str_count c s = length (filter (\<lambda>x. x = c) s)"

fun str_split :: "pychar \<Rightarrow> pystr \<Rightarrow> pystr list" where
  "str_split sep [] = [[]]"
| "str_split sep (c # cs) =
     (let r = str_split sep cs
      in if c = sep then [] # r else (c # hd r) # tl r)"

fun str_contains :: "pystr \<Rightarrow> pystr \<Rightarrow> bool" where
  "str_contains sub [] = (sub = [])"
| "str_contains sub (c # cs) = (prefix sub (c # cs) \<or> str_contains sub cs)"

definition TAB :: pychar where "TAB = 9"
definition COLON :: pychar where "COLON = 58"
definition SLASH :: pychar where "SLASH = 47"

text \<open>\<^verbatim>\<open>MorphemeLabel[label]\<close>: lookup of an enum member by name; KeyError otherwise.\<close>

definition MorphemeLabel_getitem :: "pystr \<Rightarrow> error + MorphemeLabel" where
  "MorphemeLabel_getitem name =
     (if name = ascii ''UNKN'' then Inr UNKN
      else if name = ascii ''PREF'' then Inr PREF
      else if name = ascii ''ROOT'' then Inr ROOT
      else if name = ascii ''SUFF'' then Inr SUFF
      else if name = ascii ''END'' then Inr END
      else if name = ascii ''LINK'' then Inr LINK
      else if name = ascii ''HYPH'' then Inr HYPH
      else if name = ascii ''POSTFIX'' then Inr POSTFIX
      else if name = ascii ''NONE'' then Inr NONE
      else Inl KeyError)"

text \<open>\<^verbatim>\<open>parse_morpheme\<close>: the unpacking \<^verbatim>\<open>text, label = str_repr.split(':')\<close> raises
  ValueError unless there are exactly two fields.\<close>

definition parse_morpheme :: "pystr \<Rightarrow> int \<Rightarrow> error + Morpheme" where
  "parse_morpheme str_repr position =
     (case str_split COLON str_repr of
        [text, lab] \<Rightarrow>
          (case MorphemeLabel_getitem lab of
             Inl e \<Rightarrow> Inl e
           | Inr l \<Rightarrow> Inr (Morpheme_init text l position))
      | _ \<Rightarrow> Inl ValueError)"

text \<open>The loop of \<^verbatim>\<open>parse_word\<close> over \<^verbatim>\<open>parts\<close>, with its state \<^verbatim>\<open>morphemes\<close> and
  \<^verbatim>\<open>global_index\<close>; the index is advanced by \<^verbatim>\<open>len(part)\<close>.\<close>

fun parse_parts :: "pystr list \<Rightarrow> Morpheme list \<Rightarrow> int \<Rightarrow> error + Morpheme list" where
  "parse_parts [] morphs global_index = Inr morphs"
| "parse_parts (part # rest) morphs global_index =
     (case parse_morpheme part global_index of
        Inl e \<Rightarrow> Inl e
      | Inr m \<Rightarrow> parse_parts rest (morphs @ [m]) (global_index + int (length part)))"

text \<open>The first statement of \<^verbatim>\<open>parse_word\<close>: the fields and the speech part, by the
  number of tabs.\<close>

definition parse_fields :: "pystr \<Rightarrow> error + (pystr \<times> pystr \<times> pystr)" where
  "parse_fields str_repr =
     (if str_count TAB str_repr = 3 then
        (case str_split TAB str_repr of
           [wordform, word_parts, ignored, class_info] \<Rightarrow>
             (if str_contains (ascii ''ADJ'') class_info then Inr (wordform, word_parts, ascii ''ADJ'')
              else if str_contains (ascii ''VERB'') class_info then Inr (wordform, word_parts, ascii ''VERB'')
              else if str_contains (ascii ''NOUN'') class_info then Inr (wordform, word_parts, ascii ''NOUN'')
              else if str_contains (ascii ''GRND'') class_info then Inr (wordform, word_parts, ascii ''GRND'')
              else if str_contains (ascii ''ADV'') class_info then Inr (wordform, word_parts, ascii ''ADV'')
              else if str_contains (ascii ''PART'') class_info then Inr (wordform, word_parts, ascii ''PART'')
              else Inl (Exception_Unknown_class class_info))
         | _ \<Rightarrow> Inl ValueError)
      else if str_count TAB str_repr = 2 then
        (case str_split TAB str_repr of
           [wordform, word_parts, speech] \<Rightarrow> Inr (wordform, word_parts, speech)
         | _ \<Rightarrow> Inl ValueError)
      else
        (case str_split TAB str_repr of
           [wordform, word_parts] \<Rightarrow> Inr (wordform, word_parts, ascii ''X'')
         | _ \<Rightarrow> Inl ValueError))"

text \<open>\<^verbatim>\<open>parse_word\<close>. \<open>Inr None\<close> is the Python return value \<^verbatim>\<open>None\<close>.\<close>

definition parse_word :: "pystr \<Rightarrow> error + Word option" where
  "parse_word str_repr =
     (case parse_fields str_repr of
        Inl e \<Rightarrow> Inl e
      | Inr (wordform, word_parts, speech) \<Rightarrow>
          (if COLON \<in> set wordform \<or> SLASH \<in> set wordform then Inr None
           else
             (case parse_parts (str_split SLASH word_parts) [] 0 of
                Inl e \<Rightarrow> Inl e
              | Inr ms \<Rightarrow> Inr (Some (Word_init ms speech)))))"

section \<open>The decoder \<^verbatim>\<open>MorphemModel._transform_classification\<close>\<close>

text \<open>The first loop, over \<^verbatim>\<open>enumerate(parse[1:])\<close>; its state is \<^verbatim>\<open>parts\<close> and
  \<^verbatim>\<open>current_part\<close>. \<^verbatim>\<open>letter.startswith\<close> is reached only when the comparison before
  it is false, and raises AttributeError on \<^verbatim>\<open>None\<close>.\<close>

fun transform_loop ::
  "pyval list \<Rightarrow> nat \<Rightarrow> pyval list \<Rightarrow> pyval list list \<Rightarrow> pyval list
     \<Rightarrow> error + (pyval list list \<times> pyval list)" where
  "transform_loop parse num [] parts current_part = Inr (parts, current_part)"
| "transform_loop parse num (letter # rest) parts current_part =
     (let index = num + 1 in
      if letter = PyStr (ascii ''SUFF'') \<and> parse ! (index - 1) = PyStr (ascii ''B-SUFF'') then
        transform_loop parse (num + 1) rest parts (current_part @ [letter])
      else if letter = PyStr (ascii ''PREF'') \<and> parse ! (index - 1) = PyStr (ascii ''B-PREF'') then
        transform_loop parse (num + 1) rest parts (current_part @ [letter])
      else if letter = PyStr (ascii ''ROOT'') \<and> parse ! (index - 1) = PyStr (ascii ''B-ROOT'') then
        transform_loop parse (num + 1) rest parts (current_part @ [letter])
      else if letter \<noteq> parse ! (index - 1) then
        transform_loop parse (num + 1) rest (parts @ [current_part]) [letter]
      else
        (case letter of
           PyNone \<Rightarrow> Inl AttributeError
         | PyStr s \<Rightarrow>
             if prefix (ascii ''B-'') s then
               transform_loop parse (num + 1) rest (parts @ [current_part]) [letter]
             else
               transform_loop parse (num + 1) rest parts (current_part @ [letter])))"

text \<open>The innermost loop \<^verbatim>\<open>for num, letter in enumerate(part[1:-1]): part[num+1] = 'M-' + letter\<close>;
  the slice is a copy taken before the loop.\<close>

fun mark_middle :: "pyval list \<Rightarrow> nat \<Rightarrow> pyval list \<Rightarrow> error + pyval list" where
  "mark_middle [] num part = Inr part"
| "mark_middle (letter # rest) num part =
     (case str_add (ascii ''M-'') letter of
        Inl e \<Rightarrow> Inl e
      | Inr s \<Rightarrow> mark_middle rest (num + 1) (part[num + 1 := PyStr s]))"

text \<open>The body of the second loop, on one part, updated in place. \<^verbatim>\<open>part[0]\<close> of an
  empty list raises IndexError.\<close>

definition relabel_part :: "pyval list \<Rightarrow> error + pyval list" where
  "relabel_part part =
     (if part = [] then Inl IndexError
      else
        let part1 = (if part ! 0 = PyStr (ascii ''B-PREF'') then part[0 := PyStr (ascii ''PREF'')] else part);
            part2 = (if part1 ! 0 = PyStr (ascii ''B-SUFF'') then part1[0 := PyStr (ascii ''SUFF'')] else part1);
            part3 = (if part2 ! 0 = PyStr (ascii ''B-ROOT'') then part2[0 := PyStr (ascii ''ROOT'')] else part2)
        in
          if length part3 = 1 then
            (case str_add (ascii ''S-'') (part3 ! 0) of
               Inl e \<Rightarrow> Inl e
             | Inr s \<Rightarrow> Inr (part3[0 := PyStr s]))
          else
            (case str_add (ascii ''B-'') (part3 ! 0) of
               Inl e \<Rightarrow> Inl e
             | Inr b \<Rightarrow>
                 let part4 = part3[0 := PyStr b] in
                 (case str_add (ascii ''E-'') (last part4) of
                    Inl e \<Rightarrow> Inl e
                  | Inr e \<Rightarrow>
                      let part5 = part4[length part4 - 1 := PyStr e]
                      in mark_middle (butlast (tl part5)) 0 part5)))"

fun relabel_parts :: "pyval list list \<Rightarrow> error + pyval list list" where
  "relabel_parts [] = Inr []"
| "relabel_parts (part # rest) =
     (case relabel_part part of
        Inl e \<Rightarrow> Inl e
      | Inr p \<Rightarrow>
          (case relabel_parts rest of
             Inl e \<Rightarrow> Inl e
           | Inr ps \<Rightarrow> Inr (p # ps)))"

definition transform_classification :: "pyval list \<Rightarrow> error + pyval list" where
  "transform_classification parse =
     (if parse = [] then Inl IndexError
      else
        (case transform_loop parse 0 (tl parse) [] [parse ! 0] of
           Inl e \<Rightarrow> Inl e
         | Inr (parts, current_part) \<Rightarrow>
             (case relabel_parts (if current_part \<noteq> [] then parts @ [current_part] else parts) of
                Inl e \<Rightarrow> Inl e
              | Inr ps \<Rightarrow> Inr (concat ps))))"

section \<open>The scorer \<^verbatim>\<open>measure_quality\<close>\<close>

text \<open>The list \<^verbatim>\<open>SE\<close>: \<^verbatim>\<open>'{}-{}'.format(x, y)\<close> for \<^verbatim>\<open>x\<close> in \<^verbatim>\<open>"SE"\<close> and \<^verbatim>\<open>y\<close> in the six
  names of the source, the last of which is \<^verbatim>\<open>"None"\<close>.\<close>

definition SE :: "pyval list" where
  "SE = concat (map (\<lambda>x. map (\<lambda>y. PyStr (x @ ascii ''-'' @ y))
                   [ascii ''ROOT'', ascii ''PREF'', ascii ''SUFF'', ascii ''END'',
                    ascii ''LINK'', ascii ''None''])
                [ascii ''S'', ascii ''E''])"

text \<open>The local variables \<^verbatim>\<open>TP, FP, FN, equal, total\<close> and \<^verbatim>\<open>corr_words\<close> (fields \<open>equal_n\<close>, \<open>total_n\<close>) of
  \<^verbatim>\<open>measure_quality\<close>; Python integers.\<close>

record counters =
  TP :: int
  FP :: int
  FN :: int
  equal_n :: int
  total_n :: int
  corr_words :: int

definition counters_init :: counters where
  "counters_init = \<lparr> TP = 0, FP = 0, FN = 0, equal_n = 0, total_n = 0, corr_words = 0 \<rparr>"

text \<open>The comprehension \<^verbatim>\<open>[i for i in range(len(seq)) if seq[i] in SE]\<close>, which the source
  writes once for \<^verbatim>\<open>corr\<close> and once for \<^verbatim>\<open>pred\<close>.\<close>

definition boundary_positions :: "pyval list \<Rightarrow> nat list" where
  "boundary_positions seq = filter (\<lambda>i. seq ! i \<in> set SE) [0..<length seq]"

text \<open>One iteration of the loop of \<^verbatim>\<open>measure_quality\<close> (with \<^verbatim>\<open>verbose=False\<close>, the
  default: the printing of mismatches is left out).\<close>

definition score_word :: "counters \<Rightarrow> pyval list \<Rightarrow> pyval list \<Rightarrow> counters" where
  "score_word c corr pred =
     (let boundaries = boundary_positions corr;
          pred_boundaries = boundary_positions pred;
          common = filter (\<lambda>x. x \<in> set pred_boundaries) boundaries
      in \<lparr> TP = TP c + int (length common),
           FP = FP c + (int (length pred_boundaries) - int (length common)),
           FN = FN c + (int (length boundaries) - int (length common)),
           equal_n = equal_n c + int (length (filter (\<lambda>(x, y). x = y) (zip corr pred))),
           total_n = total_n c + int (length corr),
           corr_words = corr_words c + (if corr = pred then 1 else 0) \<rparr>)"

text \<open>The loop \<^verbatim>\<open>for corr, pred, word in zip(targets, predicted_targets, words)\<close>: it ends
  with the shortest of the three lists.\<close>

fun measure_loop ::
  "counters \<Rightarrow> pyval list list \<Rightarrow> pyval list list \<Rightarrow> Word list \<Rightarrow> counters" where
  "measure_loop c (corr # targets) (pred # predicted_targets) (word # words) =
     measure_loop (score_word c corr pred) targets predicted_targets words"
| "measure_loop c targets predicted_targets words = c"

text \<open>Python's \<^verbatim>\<open>/\<close> on numbers: ZeroDivisionError for a zero divisor. The quotient, a
  correctly rounded float in Python, is modelled by the exact rational.\<close>

definition truediv :: "rat \<Rightarrow> rat \<Rightarrow> error + rat" where
  "truediv a b = (if b = 0 then Inl ZeroDivisionError else Inr (a / b))"

text \<open>\<^verbatim>\<open>measure_quality\<close>: the five quotients are evaluated in the order of the list
  \<^verbatim>\<open>results\<close>, then zipped with the names.\<close>

definition measure_quality ::
  "pyval list list \<Rightarrow> pyval list list \<Rightarrow> Word list \<Rightarrow> error + (pystr \<times> rat) list" where
  "measure_quality predicted_targets targets words =
     (let c = measure_loop counters_init targets predicted_targets words in
      case truediv (of_int (TP c)) (of_int (TP c + FP c)) of
        Inl e \<Rightarrow> Inl e
      | Inr precision \<Rightarrow>
      (case truediv (of_int (TP c)) (of_int (TP c + FN c)) of
        Inl e \<Rightarrow> Inl e
      | Inr recall \<Rightarrow>
      (case truediv (of_int (TP c)) (of_int (TP c) + (1 / 2) * of_int (FP c + FN c)) of
        Inl e \<Rightarrow> Inl e
      | Inr f1 \<Rightarrow>
      (case truediv (of_int (equal_n c)) (of_int (total_n c)) of
        Inl e \<Rightarrow> Inl e
      | Inr accuracy \<Rightarrow>
      (case truediv (of_int (corr_words c)) (of_nat (length targets)) of
        Inl e \<Rightarrow> Inl e
      | Inr word_accuracy \<Rightarrow>
          Inr (zip [ascii ''Precision'', ascii ''Recall'', ascii ''F1'', ascii ''Accuracy'',
                    ascii ''Word accuracy'']
                   [precision, recall, f1, accuracy, word_accuracy]))))))"

section \<open>The invariants of the data model\<close>

text \<open>A morpheme as \<^verbatim>\<open>Morpheme.__init__\<close> leaves it (the derived attributes agree with
  the text), with a non-empty text and a kind other than NONE.\<close>

definition morpheme_ok :: "Morpheme \<Rightarrow> bool" where
  "morpheme_ok m \<longleftrightarrow>
     part_text m \<noteq> [] \<and> label m \<noteq> NONE \<and> length_m m = length (part_text m)
     \<and> end_pos m = begin_pos m + int (length_m m)"

text \<open>The morphemes are contiguous, the first one starting at the given offset.\<close>

fun contiguous_from :: "int \<Rightarrow> Morpheme list \<Rightarrow> bool" where
  "contiguous_from p [] = True"
| "contiguous_from p (m # ms) = (begin_pos m = p \<and> contiguous_from (end_pos m) ms)"

definition word_inv :: "Word \<Rightarrow> bool" where
  "word_inv w \<longleftrightarrow> list_all morpheme_ok (morphemes w) \<and> contiguous_from 0 (morphemes w)"

text \<open>No two adjacent morphemes share a kind outside PREF, ROOT and SUFF (the kinds whose
  simple encoding marks the first letter).\<close>

fun no_merge :: "Morpheme list \<Rightarrow> bool" where
  "no_merge (m1 # m2 # ms) =
     ((label m1 \<noteq> label m2 \<or> label m2 = PREF \<or> label m2 = ROOT \<or> label m2 = SUFF)
      \<and> no_merge (m2 # ms))"
| "no_merge ms = True"

section \<open>Auxiliary definitions for the decoder\<close>

text \<open>The first loop of the decoder, with the label before the current one,
  \<^verbatim>\<open>parse[index - 1]\<close>, as a parameter.\<close>

fun loop_prev ::
  "pyval \<Rightarrow> pyval list \<Rightarrow> pyval list list \<Rightarrow> pyval list
     \<Rightarrow> error + (pyval list list \<times> pyval list)" where
  "loop_prev prev [] parts current_part = Inr (parts, current_part)"
| "loop_prev prev (letter # rest) parts current_part =
     (if letter = PyStr (ascii ''SUFF'') \<and> prev = PyStr (ascii ''B-SUFF'') then
        loop_prev letter rest parts (current_part @ [letter])
      else if letter = PyStr (ascii ''PREF'') \<and> prev = PyStr (ascii ''B-PREF'') then
        loop_prev letter rest parts (current_part @ [letter])
      else if letter = PyStr (ascii ''ROOT'') \<and> prev = PyStr (ascii ''B-ROOT'') then
        loop_prev letter rest parts (current_part @ [letter])
      else if letter \<noteq> prev then
        loop_prev letter rest (parts @ [current_part]) [letter]
      else
        (case letter of
           PyNone \<Rightarrow> Inl AttributeError
         | PyStr s \<Rightarrow>
             if prefix (ascii ''B-'') s then
               loop_prev letter rest (parts @ [current_part]) [letter]
             else
               loop_prev letter rest parts (current_part @ [letter])))"

text \<open>On strings: when a letter extends the current run, the grouping loop, the relabelling
  of one run, and the whole decoder.\<close>

definition extends :: "pystr \<Rightarrow> pystr \<Rightarrow> bool" where
  "extends prev letter \<longleftrightarrow>
     (letter = ascii ''SUFF'' \<and> prev = ascii ''B-SUFF'')
     \<or> (letter = ascii ''PREF'' \<and> prev = ascii ''B-PREF'')
     \<or> (letter = ascii ''ROOT'' \<and> prev = ascii ''B-ROOT'')
     \<or> (letter = prev \<and> \<not> prefix (ascii ''B-'') letter)"

fun group_strs :: "pystr \<Rightarrow> pystr list \<Rightarrow> pystr list list \<Rightarrow> pystr list
     \<Rightarrow> pystr list list \<times> pystr list" where
  "group_strs prev [] parts cur = (parts, cur)"
| "group_strs prev (letter # rest) parts cur =
     (if extends prev letter then group_strs letter rest parts (cur @ [letter])
      else group_strs letter rest (parts @ [cur]) [letter])"

definition norm_first :: "pystr \<Rightarrow> pystr" where
  "norm_first s =
     (if s = ascii ''B-PREF'' then ascii ''PREF''
      else if s = ascii ''B-SUFF'' then ascii ''SUFF''
      else if s = ascii ''B-ROOT'' then ascii ''ROOT''
      else s)"

fun relabel_strs :: "pystr list \<Rightarrow> pystr list" where
  "relabel_strs [] = []"
| "relabel_strs [x] = [ascii ''S-'' @ norm_first x]"
| "relabel_strs (x # xs) =
     (ascii ''B-'' @ norm_first x) # map (\<lambda>m. ascii ''M-'' @ m) (butlast xs)
       @ [ascii ''E-'' @ last xs]"

definition decode_strs :: "pystr list \<Rightarrow> pystr list" where
  "decode_strs xs =
     (case group_strs (hd xs) (tl xs) [] [hd xs] of
        (parts, cur) \<Rightarrow> concat (map relabel_strs (parts @ [cur])))"

text \<open>The string of a kind, and the simple and the full labels of a morpheme as lists of
  strings.\<close>

definition kind_str :: "MorphemeLabel \<Rightarrow> pystr" where
  "kind_str l = (case label_value l of PyStr v \<Rightarrow> v | PyNone \<Rightarrow> [])"

definition marked :: "MorphemeLabel \<Rightarrow> bool" where
  "marked l \<longleftrightarrow> l = SUFF \<or> l = PREF \<or> l = ROOT"

definition simple_strs :: "Morpheme \<Rightarrow> pystr list" where
  "simple_strs m =
     (if marked (label m)
      then (ascii ''B-'' @ kind_str (label m)) # replicate (length (part_text m) - 1) (kind_str (label m))
      else replicate (length (part_text m)) (kind_str (label m)))"

definition full_strs :: "Morpheme \<Rightarrow> pystr list" where
  "full_strs m =
     (if length (part_text m) = 1 then [ascii ''S-'' @ kind_str (label m)]
      else (ascii ''B-'' @ kind_str (label m))
           # replicate (length (part_text m) - 2) (ascii ''M-'' @ kind_str (label m))
           @ [ascii ''E-'' @ kind_str (label m)])"

section \<open>Example inputs\<close>

text \<open>The corpus line of the word \<^verbatim>\<open>pridvornyj\<close> (in Cyrillic, ten letters), a tab, and the
  morpheme list \<^verbatim>\<open>pri:PREF/dvor:ROOT/n:SUFF/yj:END\<close>, the Cyrillic letters given by their
  code points.\<close>

definition example_line :: pystr where
  "example_line =
     [1087, 1088, 1080, 1076, 1074, 1086, 1088, 1085, 1099, 1081] @ [TAB]
     @ [1087, 1088, 1080] @ ascii '':PREF/''
     @ [1076, 1074, 1086, 1088] @ ascii '':ROOT/''
     @ [1085] @ ascii '':SUFF/''
     @ [1099, 1081] @ ascii '':END''"

text \<open>The word that \<^verbatim>\<open>parse_word\<close> returns for this line.\<close>

definition example_parsed :: Word where
  "example_parsed =
     Word_init
       [Morpheme_init [1087, 1088, 1080] PREF 0,
        Morpheme_init [1076, 1074, 1086, 1088] ROOT 8,
        Morpheme_init [1085] SUFF 17,
        Morpheme_init [1099, 1081] END 23]
       (ascii ''X'')"

text \<open>A four-field line whose word form contains a colon and whose class information
  names no known speech part: \<^verbatim>\<open>wordA:wordB\<close>, \<^verbatim>\<open>x:ROOT\<close>, \<^verbatim>\<open>y\<close>, \<^verbatim>\<open>ZZZ\<close>.\<close>

definition bad_class_line :: pystr where
  "bad_class_line =
     ascii ''wordA:wordB'' @ [TAB] @ ascii ''x:ROOT'' @ [TAB] @ ascii ''y'' @ [TAB] @ ascii ''ZZZ''"

text \<open>The two-field line \<^verbatim>\<open>wordA:wordB\<close>, tab, \<^verbatim>\<open>root:ROOT\<close> (the text in Cyrillic).\<close>

definition colon_line :: pystr where
  "colon_line = ascii ''wordA:wordB'' @ [TAB] @ [1088, 1086, 1086, 1090] @ ascii '':ROOT''"

text \<open>A gold label sequence with boundaries at 2 and 5, and a predicted one, a letter
  longer, with boundaries at 2 and 6.\<close>

definition gold_example :: "pyval list" where
  "gold_example = map (\<lambda>s. PyStr (ascii s))
     [''B-PREF'', ''M-PREF'', ''E-PREF'', ''B-ROOT'', ''M-ROOT'', ''E-ROOT'']"

definition pred_example :: "pyval list" where
  "pred_example = map (\<lambda>s. PyStr (ascii s))
     [''B-PREF'', ''M-PREF'', ''E-PREF'', ''B-ROOT'', ''M-ROOT'', ''M-ROOT'', ''E-ROOT'']"

text \<open>The word that consists of one hyphen, \<^verbatim>\<open>-:HYPH\<close>, and its full labels.\<close>

definition hyphen_word :: Word where
  "hyphen_word = Word_init [Morpheme_init [45] HYPH 0] (ascii ''X'')"

definition hyphen_labels :: "pyval list" where
  "hyphen_labels = [PyStr (ascii ''S-HYPH'')]"

text \<open>A call with one predicted sequence for two gold sequences and two words.\<close>

definition short_pred :: "pyval list list" where
  "short_pred = [gold_example]"

definition two_gold :: "pyval list list" where
  "two_gold = [gold_example, gold_example]"

definition two_words :: "Word list" where
  "two_words = [example_parsed, example_parsed]"

text \<open>A label sequence that no encoding produces.\<close>

definition ill_formed :: "pystr list" where
  "ill_formed = map ascii [''ROOT'', ''B-END'', ''SUFF'', ''SUFF'', ''B-PREF'', ''ROOT'', ''PREF'']"

text \<open>The word of \<^verbatim>\<open>example_line\<close> with contiguous offsets; a word of two one-letter endings;
  a word without morphemes.\<close>

definition example_word :: Word where
  "example_word =
     Word_init
       [Morpheme_init [1087, 1088, 1080] PREF 0,
        Morpheme_init [1076, 1074, 1086, 1088] ROOT 3,
        Morpheme_init [1085] SUFF 7,
        Morpheme_init [1099, 1081] END 8]
       (ascii ''X'')"

definition two_endings :: Word where
  "two_endings =
     Word_init [Morpheme_init [1072] END 0, Morpheme_init [1103] END 1] (ascii ''X'')"

definition empty_word :: Word where
  "empty_word = Word_init [] (ascii ''X'')"

section \<open>Encoding: auxiliary facts\<close>

lemma label_value_str: "l \<noteq> NONE \<Longrightarrow> \<exists>v. label_value l = PyStr v"
  by (cases l) simp_all

lemma Morpheme_get_labels_ok:
  assumes "label_value (label m) = PyStr v"
  shows "Morpheme_get_labels m =
     Inr (if length_m m = 1 then [PyStr (ascii ''S-'' @ v)]
          else [PyStr (ascii ''B-'' @ v)]
               @ replicate (length (part_text m) - 2) (PyStr (ascii ''M-'' @ v))
               @ [PyStr (ascii ''E-'' @ v)])"
  unfolding Morpheme_get_labels_def assms
  by (simp add: str_add_def map_replicate_const numeral_2_eq_2)

lemma Morpheme_get_simple_labels_ok:
  assumes "label_value (label m) = PyStr v"
  shows "Morpheme_get_simple_labels m =
     Inr (if label m = SUFF \<or> label m = PREF \<or> label m = ROOT
          then PyStr (ascii ''B-'' @ v)
               # (if length_m m > 1 then replicate (length (part_text m) - 1) (PyStr v) else [])
          else replicate (length_m m) (PyStr v))"
  unfolding Morpheme_get_simple_labels_def assms
  by (simp add: str_add_def map_replicate_const)

lemma get_labels_loop_app:
  "get_labels_loop ms (acc @ r) =
     (case get_labels_loop ms r of Inl e \<Rightarrow> Inl e | Inr ls \<Rightarrow> Inr (acc @ ls))"
  by (induction ms arbitrary: r) (auto split: sum.splits)

lemma get_labels_loop_acc:
  "get_labels_loop ms a =
     (case get_labels_loop ms [] of Inl e \<Rightarrow> Inl e | Inr ls \<Rightarrow> Inr (a @ ls))"
  using get_labels_loop_app[of ms a "[]"] by simp

lemma get_simple_labels_loop_app:
  "get_simple_labels_loop ms (acc @ r) =
     (case get_simple_labels_loop ms r of Inl e \<Rightarrow> Inl e | Inr ls \<Rightarrow> Inr (acc @ ls))"
  by (induction ms arbitrary: r) (auto split: sum.splits)

lemma get_simple_labels_loop_acc:
  "get_simple_labels_loop ms a =
     (case get_simple_labels_loop ms [] of Inl e \<Rightarrow> Inl e | Inr ls \<Rightarrow> Inr (a @ ls))"
  using get_simple_labels_loop_app[of ms a "[]"] by simp

lemma morpheme_lengths:
  assumes "morpheme_ok m"
  shows "\<exists>ls ss. Morpheme_get_labels m = Inr ls \<and> Morpheme_get_simple_labels m = Inr ss
           \<and> length ls = length_m m \<and> length ss = length_m m"
proof -
  from assms obtain v where v: "label_value (label m) = PyStr v"
    using label_value_str by (auto simp: morpheme_ok_def)
  from assms have n: "length_m m = length (part_text m)" "length (part_text m) \<ge> 1"
    by (auto simp: morpheme_ok_def Suc_le_eq)
  show ?thesis
    using n by (auto simp: Morpheme_get_labels_ok[OF v] Morpheme_get_simple_labels_ok[OF v])
qed

lemma loops_lengths:
  assumes "list_all morpheme_ok ms"
  shows "\<exists>ls ss. get_labels_loop ms [] = Inr ls \<and> get_simple_labels_loop ms [] = Inr ss
           \<and> length ls = sum_list (map Morpheme_len ms)
           \<and> length ss = sum_list (map Morpheme_len ms)"
  using assms
proof (induction ms)
  case Nil
  then show ?case by simp
next
  case (Cons m ms)
  then obtain ls ss where IH:
    "get_labels_loop ms [] = Inr ls" "get_simple_labels_loop ms [] = Inr ss"
    "length ls = sum_list (map Morpheme_len ms)" "length ss = sum_list (map Morpheme_len ms)"
    by auto
  from Cons.prems obtain a b where ab:
    "Morpheme_get_labels m = Inr a" "Morpheme_get_simple_labels m = Inr b"
    "length a = length_m m" "length b = length_m m"
    using morpheme_lengths[of m] by auto
  show ?case
    by (simp add: ab get_labels_loop_acc[of ms a] get_simple_labels_loop_acc[of ms b] IH
          Morpheme_len_def[of m])
qed

lemma parse_example: "parse_word example_line = Inr (Some example_parsed)"
  by code_simp

lemma example_parsed_ok: "list_all morpheme_ok (morphemes example_parsed)"
  by (simp add: example_parsed_def Word_init_def Morpheme_init_def morpheme_ok_def)

section \<open>C3: the three lengths agree\<close>

text \<open>
  C3. For every word whose morphemes are as the constructor leaves them, each with a
  non-empty text and a kind other than NONE, \<^verbatim>\<open>get_labels\<close> and \<^verbatim>\<open>get_simple_labels\<close> both
  return, and the length of the full label sequence, the length of the simple label
  sequence and \<^verbatim>\<open>len(W)\<close> are the same number.
\<close>

theorem lengths_agree:
  assumes "list_all morpheme_ok (morphemes w)"
  shows "\<exists>ls ss. Word_get_labels w = Inr ls \<and> Word_get_simple_labels w = Inr ss
           \<and> length ls = length ss \<and> length ss = Word_len w"
  using loops_lengths[OF assms]
  by (auto simp: Word_get_labels_def Word_get_simple_labels_def Word_len_def)

theorem lengths_agree_witness:
  "list_all morpheme_ok (morphemes example_parsed)
   \<and> (\<exists>ls ss. Word_get_labels example_parsed = Inr ls
         \<and> Word_get_simple_labels example_parsed = Inr ss
         \<and> length ls = length ss \<and> length ss = Word_len example_parsed)"
  using lengths_agree[OF example_parsed_ok] example_parsed_ok by simp

section \<open>C4: the full encoding\<close>

text \<open>
  C4. For every morpheme whose kind is not NONE, \<^verbatim>\<open>get_labels\<close> returns the single tag
  S-kind when the length is 1, and otherwise B-kind, one M-kind for each interior letter
  (all letters but the first and the last), and E-kind. The word parsed from the line of
  \<^verbatim>\<open>pri:PREF/dvor:ROOT/n:SUFF/yj:END\<close> has the full labels B-PREF, M-PREF, E-PREF, B-ROOT,
  M-ROOT, M-ROOT, E-ROOT, S-SUFF, B-END, E-END.
\<close>

theorem full_encoding:
  "(\<forall>m. label m \<noteq> NONE \<longrightarrow>
      (\<exists>v. label_value (label m) = PyStr v
         \<and> Morpheme_get_labels m =
             Inr (if length_m m = 1 then [PyStr (ascii ''S-'' @ v)]
                  else [PyStr (ascii ''B-'' @ v)]
                       @ replicate (length (part_text m) - 2) (PyStr (ascii ''M-'' @ v))
                       @ [PyStr (ascii ''E-'' @ v)])))
   \<and> (\<exists>w. parse_word example_line = Inr (Some w)
         \<and> Word_get_labels w =
             Inr (map (\<lambda>s. PyStr (ascii s))
                    [''B-PREF'', ''M-PREF'', ''E-PREF'', ''B-ROOT'', ''M-ROOT'', ''M-ROOT'',
                     ''E-ROOT'', ''S-SUFF'', ''B-END'', ''E-END'']))"
proof (intro conjI allI impI)
  fix m :: Morpheme
  assume "label m \<noteq> NONE"
  then obtain v where v: "label_value (label m) = PyStr v"
    using label_value_str by blast
  show "\<exists>v. label_value (label m) = PyStr v
         \<and> Morpheme_get_labels m =
             Inr (if length_m m = 1 then [PyStr (ascii ''S-'' @ v)]
                  else [PyStr (ascii ''B-'' @ v)]
                       @ replicate (length (part_text m) - 2) (PyStr (ascii ''M-'' @ v))
                       @ [PyStr (ascii ''E-'' @ v)])"
    using v Morpheme_get_labels_ok[OF v] by blast
next
  have p: "parse_word example_line = Inr (Some example_parsed)"
    by (rule parse_example)
  have l: "Word_get_labels example_parsed =
             Inr (map (\<lambda>s. PyStr (ascii s))
                    [''B-PREF'', ''M-PREF'', ''E-PREF'', ''B-ROOT'', ''M-ROOT'', ''M-ROOT'',
                     ''E-ROOT'', ''S-SUFF'', ''B-END'', ''E-END''])"
    by code_simp
  show "\<exists>w. parse_word example_line = Inr (Some w)
         \<and> Word_get_labels w =
             Inr (map (\<lambda>s. PyStr (ascii s))
                    [''B-PREF'', ''M-PREF'', ''E-PREF'', ''B-ROOT'', ''M-ROOT'', ''M-ROOT'',
                     ''E-ROOT'', ''S-SUFF'', ''B-END'', ''E-END''])"
    using p l by blast
qed

text \<open>The general part at the one-letter suffix and at the four-letter root of the example.\<close>

theorem full_encoding_witness:
  "label (Morpheme_init [1085] SUFF 17) \<noteq> NONE
   \<and> Morpheme_get_labels (Morpheme_init [1085] SUFF 17) = Inr [PyStr (ascii ''S-SUFF'')]
   \<and> label (Morpheme_init [1076, 1074, 1086, 1088] ROOT 8) \<noteq> NONE
   \<and> Morpheme_get_labels (Morpheme_init [1076, 1074, 1086, 1088] ROOT 8) =
       Inr [PyStr (ascii ''B-ROOT''), PyStr (ascii ''M-ROOT''), PyStr (ascii ''M-ROOT''),
            PyStr (ascii ''E-ROOT'')]"
proof -
  have a: "label (Morpheme_init [1085] SUFF 17) \<noteq> NONE"
    and b: "label (Morpheme_init [1076, 1074, 1086, 1088] ROOT 8) \<noteq> NONE"
    by (simp_all add: Morpheme_init_def)
  from full_encoding a have
    "\<exists>v. label_value (label (Morpheme_init [1085] SUFF 17)) = PyStr v
       \<and> Morpheme_get_labels (Morpheme_init [1085] SUFF 17) =
             Inr (if length_m (Morpheme_init [1085] SUFF 17) = 1 then [PyStr (ascii ''S-'' @ v)]
                  else [PyStr (ascii ''B-'' @ v)]
                       @ replicate (length (part_text (Morpheme_init [1085] SUFF 17)) - 2)
                           (PyStr (ascii ''M-'' @ v))
                       @ [PyStr (ascii ''E-'' @ v)])"
    by blast
  then have 1: "Morpheme_get_labels (Morpheme_init [1085] SUFF 17) = Inr [PyStr (ascii ''S-SUFF'')]"
    by (auto simp: Morpheme_init_def ascii_def)
  from full_encoding b have
    "\<exists>v. label_value (label (Morpheme_init [1076, 1074, 1086, 1088] ROOT 8)) = PyStr v
       \<and> Morpheme_get_labels (Morpheme_init [1076, 1074, 1086, 1088] ROOT 8) =
             Inr (if length_m (Morpheme_init [1076, 1074, 1086, 1088] ROOT 8) = 1
                  then [PyStr (ascii ''S-'' @ v)]
                  else [PyStr (ascii ''B-'' @ v)]
                       @ replicate
                           (length (part_text (Morpheme_init [1076, 1074, 1086, 1088] ROOT 8)) - 2)
                           (PyStr (ascii ''M-'' @ v))
                       @ [PyStr (ascii ''E-'' @ v)])"
    by blast
  then have 2: "Morpheme_get_labels (Morpheme_init [1076, 1074, 1086, 1088] ROOT 8) =
       Inr [PyStr (ascii ''B-ROOT''), PyStr (ascii ''M-ROOT''), PyStr (ascii ''M-ROOT''),
            PyStr (ascii ''E-ROOT'')]"
    by (auto simp: Morpheme_init_def ascii_def numeral_2_eq_2)
  from a b 1 2 show ?thesis by blast
qed

section \<open>C2: the offsets that \<^verbatim>\<open>parse_word\<close> assigns\<close>

text \<open>
  C2. On the line of \<^verbatim>\<open>pri:PREF/dvor:ROOT/n:SUFF/yj:END\<close>, \<^verbatim>\<open>parse_word\<close> returns a word
  whose first morpheme begins at 0 and ends at 3, and whose second morpheme begins at 8,
  the length of the whole token \<^verbatim>\<open>pri:PREF\<close>: the loop advances \<^verbatim>\<open>global_index\<close> by
  \<^verbatim>\<open>len(part)\<close>, not by the length of the text. The later morphemes begin at 17 and 23,
  while the second and third end at 12 and 18.
\<close>

theorem parse_word_offsets_example:
  "parse_word example_line = Inr (Some example_parsed)
   \<and> map begin_pos (morphemes example_parsed) = [0, 8, 17, 23]
   \<and> map end_pos (morphemes example_parsed) = [3, 12, 18, 25]
   \<and> end_pos (morphemes example_parsed ! 0) \<noteq> begin_pos (morphemes example_parsed ! 1)"
proof -
  have "parse_word example_line = Inr (Some example_parsed)"
    by (rule parse_example)
  moreover have "map begin_pos (morphemes example_parsed) = [0, 8, 17, 23]"
    by (simp add: example_parsed_def Word_init_def Morpheme_init_def)
  moreover have "map end_pos (morphemes example_parsed) = [3, 12, 18, 25]"
    by (simp add: example_parsed_def Word_init_def Morpheme_init_def)
  moreover have "end_pos (morphemes example_parsed ! 0) \<noteq> begin_pos (morphemes example_parsed ! 1)"
    by (simp add: example_parsed_def Word_init_def Morpheme_init_def)
  ultimately show ?thesis by blast
qed

section \<open>C9: the guard on the word form\<close>

lemma str_split_length: "length (str_split sep s) = Suc (str_count sep s)"
  by (induction s) (auto simp: str_count_def Let_def)

lemma str_split_nonempty: "str_split sep s \<noteq> []"
  using str_split_length[of sep s] by auto

lemma list_len4: "length xs = 4 \<Longrightarrow> \<exists>a b c d. xs = [a, b, c, d]"
  by (auto simp: length_Suc_conv numeral_eq_Suc)
lemma list_len3: "length xs = 3 \<Longrightarrow> \<exists>a b c. xs = [a, b, c]"
  by (auto simp: length_Suc_conv numeral_eq_Suc)
lemma list_len2: "length xs = 2 \<Longrightarrow> \<exists>a b. xs = [a, b]"
  by (auto simp: length_Suc_conv numeral_eq_Suc)

lemma parse_fields_3:
  assumes "str_count TAB line = 3"
  shows "parse_fields line =
     (let fs = str_split TAB line in
      if str_contains (ascii ''ADJ'') (fs ! 3) then Inr (fs ! 0, fs ! 1, ascii ''ADJ'')
      else if str_contains (ascii ''VERB'') (fs ! 3) then Inr (fs ! 0, fs ! 1, ascii ''VERB'')
      else if str_contains (ascii ''NOUN'') (fs ! 3) then Inr (fs ! 0, fs ! 1, ascii ''NOUN'')
      else if str_contains (ascii ''GRND'') (fs ! 3) then Inr (fs ! 0, fs ! 1, ascii ''GRND'')
      else if str_contains (ascii ''ADV'') (fs ! 3) then Inr (fs ! 0, fs ! 1, ascii ''ADV'')
      else if str_contains (ascii ''PART'') (fs ! 3) then Inr (fs ! 0, fs ! 1, ascii ''PART'')
      else Inl (Exception_Unknown_class (fs ! 3)))"
proof -
  have "length (str_split TAB line) = 4" using assms by (simp add: str_split_length)
  then obtain a b c d where "str_split TAB line = [a, b, c, d]" using list_len4 by blast
  then show ?thesis using assms by (simp add: parse_fields_def)
qed

lemma parse_fields_2:
  assumes "str_count TAB line = 2"
  shows "parse_fields line = (let fs = str_split TAB line in Inr (fs ! 0, fs ! 1, fs ! 2))"
proof -
  have "length (str_split TAB line) = 3" using assms by (simp add: str_split_length)
  then obtain a b c where "str_split TAB line = [a, b, c]" using list_len3 by blast
  then show ?thesis using assms by (simp add: parse_fields_def)
qed

lemma parse_fields_1:
  assumes "str_count TAB line = 1"
  shows "parse_fields line = (let fs = str_split TAB line in Inr (fs ! 0, fs ! 1, ascii ''X''))"
proof -
  have "length (str_split TAB line) = 2" using assms by (simp add: str_split_length)
  then obtain a b where "str_split TAB line = [a, b]" using list_len2 by blast
  then show ?thesis using assms by (simp add: parse_fields_def)
qed

lemma parse_fields_other:
  assumes "str_count TAB line \<noteq> 1" "str_count TAB line \<noteq> 2" "str_count TAB line \<noteq> 3"
  shows "parse_fields line = Inl ValueError"
proof -
  have "length (str_split TAB line) \<noteq> 2" using assms by (simp add: str_split_length)
  then show ?thesis using assms
    by (auto simp: parse_fields_def split: list.splits)
qed

lemma parse_fields_wordform:
  "parse_fields line = Inr (wform, wp, s) \<Longrightarrow> wform = hd (str_split TAB line)"
  by (auto simp: parse_fields_def hd_conv_nth split: if_splits list.splits)

text \<open>
  Against C9 as stated: the first field of the four-field line \<^verbatim>\<open>bad_class_line\<close>
  contains a colon, and \<^verbatim>\<open>parse_word\<close> does not return \<^verbatim>\<open>None\<close>: it raises the
  exception \<^verbatim>\<open>Unknown class\<close>, since the speech part is derived before the word form is
  examined.
\<close>

theorem wordform_guard_counterexample:
  "COLON \<in> set (hd (str_split TAB bad_class_line))
   \<and> parse_word bad_class_line \<noteq> Inr None
   \<and> parse_word bad_class_line = Inl (Exception_Unknown_class (ascii ''ZZZ''))"
  by code_simp

text \<open>
  C9, amended. For every line whose first tab-separated field contains a colon or a slash,
  \<^verbatim>\<open>parse_word\<close> never returns a word. It returns \<^verbatim>\<open>None\<close> when the line has two or
  three fields, and when it has four fields and the class information contains one of
  ADJ, VERB, NOUN, GRND, ADV, PART. A four-field line with any other class information
  raises the exception \<^verbatim>\<open>Unknown class\<close>, and a line with one field or more than four
  raises ValueError, both before the word form is examined.
\<close>

theorem wordform_guard:
  assumes "COLON \<in> set (hd (str_split TAB line)) \<or> SLASH \<in> set (hd (str_split TAB line))"
  shows "(\<forall>w. parse_word line \<noteq> Inr (Some w))
    \<and> (str_count TAB line = 1 \<or> str_count TAB line = 2 \<longrightarrow> parse_word line = Inr None)
    \<and> (str_count TAB line = 3 \<longrightarrow>
         parse_word line =
           (if \<exists>t \<in> set [ascii ''ADJ'', ascii ''VERB'', ascii ''NOUN'', ascii ''GRND'',
                           ascii ''ADV'', ascii ''PART''].
                 str_contains t (str_split TAB line ! 3)
            then Inr None
            else Inl (Exception_Unknown_class (str_split TAB line ! 3))))
    \<and> (str_count TAB line \<notin> {1, 2, 3} \<longrightarrow> parse_word line = Inl ValueError)"
proof -
  have hd0: "str_split TAB line ! 0 = hd (str_split TAB line)"
    using str_split_nonempty[of TAB line] by (simp add: hd_conv_nth)
  have a: "\<forall>w. parse_word line \<noteq> Inr (Some w)"
    using assms parse_fields_wordform[of line]
    by (auto simp: parse_word_def split: sum.splits prod.splits)
  have b: "str_count TAB line = 1 \<or> str_count TAB line = 2 \<longrightarrow> parse_word line = Inr None"
    using assms hd0 by (auto simp: parse_word_def parse_fields_1 parse_fields_2 Let_def)
  have c: "str_count TAB line = 3 \<longrightarrow>
         parse_word line =
           (if \<exists>t \<in> set [ascii ''ADJ'', ascii ''VERB'', ascii ''NOUN'', ascii ''GRND'',
                           ascii ''ADV'', ascii ''PART''].
                 str_contains t (str_split TAB line ! 3)
            then Inr None
            else Inl (Exception_Unknown_class (str_split TAB line ! 3)))"
    using assms hd0 by (auto simp: parse_word_def parse_fields_3 Let_def)
  have d: "str_count TAB line \<notin> {1, 2, 3} \<longrightarrow> parse_word line = Inl ValueError"
    by (auto simp: parse_word_def parse_fields_other)
  from a b c d show ?thesis by blast
qed

theorem wordform_guard_witness:
  "(COLON \<in> set (hd (str_split TAB colon_line)) \<or> SLASH \<in> set (hd (str_split TAB colon_line)))
   \<and> str_count TAB colon_line = 1
   \<and> parse_word colon_line = Inr None"
proof -
  have a: "COLON \<in> set (hd (str_split TAB colon_line)) \<or> SLASH \<in> set (hd (str_split TAB colon_line))"
    by code_simp
  have b: "str_count TAB colon_line = 1"
    by code_simp
  from wordform_guard[OF a] b have "parse_word colon_line = Inr None"
    by blast
  with a b show ?thesis by blast
qed

section \<open>The scorer: auxiliary facts\<close>

lemma set_SE: "set SE = {PyStr (ascii ''S-ROOT''), PyStr (ascii ''S-PREF''), PyStr (ascii ''S-SUFF''),
      PyStr (ascii ''S-END''), PyStr (ascii ''S-LINK''), PyStr (ascii ''S-None''),
      PyStr (ascii ''E-ROOT''), PyStr (ascii ''E-PREF''), PyStr (ascii ''E-SUFF''),
      PyStr (ascii ''E-END''), PyStr (ascii ''E-LINK''), PyStr (ascii ''E-None'')}"
  by (simp add: SE_def ascii_def)

lemma set_boundary_positions:
  "set (boundary_positions s) = {i. i < length s \<and> s ! i \<in> set SE}"
  by (auto simp: boundary_positions_def)

lemma distinct_boundary_positions: "distinct (boundary_positions s)"
  by (simp add: boundary_positions_def)

lemma length_boundary_positions:
  "length (boundary_positions s) = card (set (boundary_positions s))"
  by (simp add: distinct_card distinct_boundary_positions)

lemma length_common:
  "length (filter (\<lambda>x. x \<in> set (boundary_positions p)) (boundary_positions g))
     = card (set (boundary_positions g) \<inter> set (boundary_positions p))"
proof -
  have "distinct (filter (\<lambda>x. x \<in> set (boundary_positions p)) (boundary_positions g))"
    by (simp add: distinct_boundary_positions)
  then have "length (filter (\<lambda>x. x \<in> set (boundary_positions p)) (boundary_positions g))
     = card (set (filter (\<lambda>x. x \<in> set (boundary_positions p)) (boundary_positions g)))"
    by (rule distinct_card[symmetric])
  also have "set (filter (\<lambda>x. x \<in> set (boundary_positions p)) (boundary_positions g))
     = set (boundary_positions g) \<inter> set (boundary_positions p)"
    by auto
  finally show ?thesis .
qed

lemma score_word_counts:
  "TP (score_word c g p) = TP c + int (card (set (boundary_positions g) \<inter> set (boundary_positions p)))"
  "FN (score_word c g p) = FN c + (int (card (set (boundary_positions g)))
       - int (card (set (boundary_positions g) \<inter> set (boundary_positions p))))"
  "FP (score_word c g p) = FP c + (int (card (set (boundary_positions p)))
       - int (card (set (boundary_positions g) \<inter> set (boundary_positions p))))"
  by (simp_all add: score_word_def Let_def length_common length_boundary_positions[symmetric])

lemma measure_loop_sums:
  "TP (measure_loop c ts ps ws) = TP c + (\<Sum>(g, p, w) \<leftarrow> zip ts (zip ps ws).
       int (card (set (boundary_positions g) \<inter> set (boundary_positions p))))"
  "FN (measure_loop c ts ps ws) = FN c + (\<Sum>(g, p, w) \<leftarrow> zip ts (zip ps ws).
       int (card (set (boundary_positions g)))
       - int (card (set (boundary_positions g) \<inter> set (boundary_positions p))))"
  "FP (measure_loop c ts ps ws) = FP c + (\<Sum>(g, p, w) \<leftarrow> zip ts (zip ps ws).
       int (card (set (boundary_positions p)))
       - int (card (set (boundary_positions g) \<inter> set (boundary_positions p))))"
  by (induction c ts ps ws rule: measure_loop.induct) (simp_all add: score_word_counts)

lemma measure_loop_take:
  "measure_loop c ts ps ws =
     measure_loop c (take (min (length ts) (min (length ps) (length ws))) ts)
                    (take (min (length ts) (min (length ps) (length ws))) ps)
                    (take (min (length ts) (min (length ps) (length ws))) ws)"
  by (induction c ts ps ws rule: measure_loop.induct) simp_all

lemma measure_quality_error:
  "measure_quality ps ts ws = Inl e \<Longrightarrow> e = ZeroDivisionError"
  by (auto simp: measure_quality_def truediv_def Let_def split: sum.splits if_splits)

lemma score_word_same:
  "score_word c s s = \<lparr> TP = TP c + int (length (boundary_positions s)), FP = FP c, FN = FN c,
      equal_n = equal_n c + int (length s), total_n = total_n c + int (length s),
      corr_words = corr_words c + 1 \<rparr>"
  by (simp add: score_word_def Let_def zip_same_conv_map filter_map comp_def)

lemma measure_loop_same:
  "length ts \<le> length ws \<Longrightarrow>
   measure_loop c ts ts ws = \<lparr> TP = TP c + (\<Sum>s\<leftarrow>ts. int (length (boundary_positions s))),
      FP = FP c, FN = FN c,
      equal_n = equal_n c + (\<Sum>s\<leftarrow>ts. int (length s)),
      total_n = total_n c + (\<Sum>s\<leftarrow>ts. int (length s)),
      corr_words = corr_words c + int (length ts) \<rparr>"
proof (induction ts arbitrary: c ws)
  case Nil
  then show ?case by simp
next
  case (Cons s ts)
  then obtain w ws' where "ws = w # ws'" by (cases ws) auto
  with Cons show ?case by (simp add: score_word_same)
qed

lemma hyphen_word_labels: "Word_get_labels hyphen_word = Inr hyphen_labels"
  by code_simp

lemma bp_gold: "boundary_positions gold_example = [2, 5]"
  by code_simp
lemma bp_pred: "boundary_positions pred_example = [2, 6]"
  by code_simp

lemma ex_score: "score_word counters_init gold_example pred_example =
   \<lparr> TP = 1, FP = 1, FN = 1, equal_n = 5, total_n = 6, corr_words = 0 \<rparr>"
  by code_simp

lemma measure_quality_unfold:
  "measure_quality ps ts ws =
     (let c = measure_loop counters_init ts ps ws in
      if TP c + FP c = 0 \<or> TP c + FN c = 0
         \<or> (of_int (TP c) :: rat) + (1 / 2) * of_int (FP c + FN c) = 0
         \<or> total_n c = 0 \<or> length ts = 0
      then Inl ZeroDivisionError
      else Inr [(ascii ''Precision'', of_int (TP c) / of_int (TP c + FP c)),
                (ascii ''Recall'', of_int (TP c) / of_int (TP c + FN c)),
                (ascii ''F1'', of_int (TP c) / (of_int (TP c) + (1 / 2) * of_int (FP c + FN c))),
                (ascii ''Accuracy'', of_int (equal_n c) / of_int (total_n c)),
                (ascii ''Word accuracy'', of_int (corr_words c) / of_nat (length ts))])"
  by (simp add: measure_quality_def truediv_def Let_def)

lemma measure_quality_zero:
  assumes "c = measure_loop counters_init ts ps ws"
    and "TP c + FP c = 0 \<or> TP c + FN c = 0
         \<or> (of_int (TP c) :: rat) + (1 / 2) * of_int (FP c + FN c) = 0
         \<or> total_n c = 0 \<or> length ts = 0"
  shows "measure_quality ps ts ws = Inl ZeroDivisionError"
  using assms
  by (auto simp: measure_quality_def truediv_def Let_def split: sum.splits)

lemma hyphen_counters: "measure_loop counters_init [hyphen_labels] [hyphen_labels] [hyphen_word]
   = \<lparr> TP = 0, FP = 0, FN = 0, equal_n = 1, total_n = 1, corr_words = 1 \<rparr>"
  by code_simp

lemma sum_list_pos_int:
  fixes f :: "'a \<Rightarrow> int"
  assumes "x \<in> set xs" "0 < f x" "\<And>y. 0 \<le> f y"
  shows "0 < (\<Sum>y\<leftarrow>xs. f y)"
  using assms(1)
proof (induction xs)
  case Nil
  then show ?case by simp
next
  case (Cons a xs)
  have nn: "0 \<le> (\<Sum>y\<leftarrow>xs. f y)" by (rule sum_list_nonneg) (auto simp: assms(3))
  show ?case
  proof (cases "x = a")
    case True
    then show ?thesis using nn assms(2) by simp
  next
    case False
    then have "0 < (\<Sum>y\<leftarrow>xs. f y)" using Cons by simp
    then show ?thesis using assms(3)[of a] by simp
  qed
qed

lemma sum_bp_pos:
  assumes "s \<in> set ts" "l \<in> set s" "l \<in> set SE"
  shows "0 < (\<Sum>s\<leftarrow>ts. int (length (boundary_positions s)))"
    and "0 < (\<Sum>s\<leftarrow>ts. int (length s))"
proof -
  from assms(2) obtain i where i: "i < length s" "s ! i = l" by (auto simp: in_set_conv_nth)
  then have "i \<in> set (boundary_positions s)" using assms(3) by (simp add: set_boundary_positions)
  then have "0 < int (length (boundary_positions s))" by (cases "boundary_positions s") auto
  then show "0 < (\<Sum>s\<leftarrow>ts. int (length (boundary_positions s)))"
    using sum_list_pos_int[OF assms(1), of "\<lambda>s. int (length (boundary_positions s))"] by simp
  from i have "0 < int (length s)" by auto
  then show "0 < (\<Sum>s\<leftarrow>ts. int (length s))"
    using sum_list_pos_int[OF assms(1), of "\<lambda>s. int (length s)"] by simp
qed

section \<open>C5: boundary positions and the three counts\<close>

text \<open>
  Against C5 as stated: the label \<^verbatim>\<open>S-NONE\<close> is in the set that the specification gives, and the
  scorer does not take its position as a boundary; the list \<^verbatim>\<open>SE\<close> of the source holds
  \<^verbatim>\<open>S-None\<close> and \<^verbatim>\<open>E-None\<close> instead.
\<close>

theorem none_label_counterexample:
  "[PyStr (ascii ''S-NONE'')] ! 0 = PyStr (ascii ''S-NONE'')
   \<and> 0 < length [PyStr (ascii ''S-NONE'')]
   \<and> 0 \<notin> set (boundary_positions [PyStr (ascii ''S-NONE'')])
   \<and> 0 \<in> set (boundary_positions [PyStr (ascii ''S-None'')])"
  by (simp add: boundary_positions_def SE_def ascii_def)

text \<open>
  C5, amended. The boundary positions of a label sequence are exactly the indices below
  its own length whose label is one of S-ROOT, S-PREF, S-SUFF, S-END, S-LINK, S-None,
  E-ROOT, E-PREF, E-SUFF, E-END, E-LINK, E-None. With G and P the boundary positions of
  the gold and of the predicted sequence, one word adds |G \<inter> P| to TP, |G| - |G \<inter> P| to FN and
  |P| - |G \<inter> P| to FP, and the loop over the dataset adds these up over the zipped words.
  For gold boundaries {2, 5} and predicted boundaries {2, 6} one word gives TP = 1,
  FN = 1, FP = 1.
\<close>

theorem boundary_counts:
  "(\<forall>s. set (boundary_positions s) =
        {i. i < length s \<and> s ! i \<in>
           {PyStr (ascii ''S-ROOT''), PyStr (ascii ''S-PREF''), PyStr (ascii ''S-SUFF''),
            PyStr (ascii ''S-END''), PyStr (ascii ''S-LINK''), PyStr (ascii ''S-None''),
            PyStr (ascii ''E-ROOT''), PyStr (ascii ''E-PREF''), PyStr (ascii ''E-SUFF''),
            PyStr (ascii ''E-END''), PyStr (ascii ''E-LINK''), PyStr (ascii ''E-None'')}})
   \<and> (\<forall>c g p.
        TP (score_word c g p) = TP c
          + int (card (set (boundary_positions g) \<inter> set (boundary_positions p)))
      \<and> FN (score_word c g p) = FN c
          + (int (card (set (boundary_positions g)))
             - int (card (set (boundary_positions g) \<inter> set (boundary_positions p))))
      \<and> FP (score_word c g p) = FP c
          + (int (card (set (boundary_positions p)))
             - int (card (set (boundary_positions g) \<inter> set (boundary_positions p)))))
   \<and> (\<forall>c ts ps ws.
        TP (measure_loop c ts ps ws) = TP c
          + (\<Sum>(g, p, w) \<leftarrow> zip ts (zip ps ws).
               int (card (set (boundary_positions g) \<inter> set (boundary_positions p))))
      \<and> FN (measure_loop c ts ps ws) = FN c
          + (\<Sum>(g, p, w) \<leftarrow> zip ts (zip ps ws).
               int (card (set (boundary_positions g)))
               - int (card (set (boundary_positions g) \<inter> set (boundary_positions p))))
      \<and> FP (measure_loop c ts ps ws) = FP c
          + (\<Sum>(g, p, w) \<leftarrow> zip ts (zip ps ws).
               int (card (set (boundary_positions p)))
               - int (card (set (boundary_positions g) \<inter> set (boundary_positions p)))))
   \<and> set (boundary_positions gold_example) = {2, 5}
   \<and> set (boundary_positions pred_example) = {2, 6}
   \<and> TP (score_word counters_init gold_example pred_example) = 1
   \<and> FN (score_word counters_init gold_example pred_example) = 1
   \<and> FP (score_word counters_init gold_example pred_example) = 1"
proof -
  have a: "\<forall>s. set (boundary_positions s) =
        {i. i < length s \<and> s ! i \<in>
           {PyStr (ascii ''S-ROOT''), PyStr (ascii ''S-PREF''), PyStr (ascii ''S-SUFF''),
            PyStr (ascii ''S-END''), PyStr (ascii ''S-LINK''), PyStr (ascii ''S-None''),
            PyStr (ascii ''E-ROOT''), PyStr (ascii ''E-PREF''), PyStr (ascii ''E-SUFF''),
            PyStr (ascii ''E-END''), PyStr (ascii ''E-LINK''), PyStr (ascii ''E-None'')}}"
    unfolding set_boundary_positions set_SE by simp
  have e: "set (boundary_positions gold_example) = {2, 5}"
    "set (boundary_positions pred_example) = {2, 6}"
    by (simp_all add: bp_gold bp_pred)
  have f: "TP (score_word counters_init gold_example pred_example) = 1"
   "FN (score_word counters_init gold_example pred_example) = 1"
   "FP (score_word counters_init gold_example pred_example) = 1"
    by (simp_all add: ex_score)
  show ?thesis
    apply (intro conjI allI)
    apply (rule a[rule_format])
    apply (rule score_word_counts)+
    apply (rule measure_loop_sums)+
    apply (rule e f)+
    done
qed

section \<open>C6: identical sequences\<close>

text \<open>
  Against C6 as stated: for the non-empty dataset of the one word \<^verbatim>\<open>-:HYPH\<close>, with the
  predicted labels equal to the gold labels \<^verbatim>\<open>S-HYPH\<close>, no label is a boundary label, TP +
  FP is 0, and \<^verbatim>\<open>measure_quality\<close> raises ZeroDivisionError.
\<close>

theorem identical_undefined_counterexample:
  "[hyphen_labels] \<noteq> []
   \<and> Word_get_labels hyphen_word = Inr hyphen_labels
   \<and> measure_quality [hyphen_labels] [hyphen_labels] [hyphen_word] = Inl ZeroDivisionError"
  using measure_quality_zero[OF hyphen_counters[symmetric]]
  by (simp add: hyphen_word_labels)

text \<open>
  C6, amended. For every dataset in which the predicted sequences are the gold sequences,
  at least one gold label is a boundary label (a member of \<^verbatim>\<open>SE\<close>), and the list of words
  is at least as long as the list of gold sequences, \<^verbatim>\<open>measure_quality\<close> returns
  Precision = Recall = F1 = Accuracy = Word accuracy = 1.
\<close>

theorem identical_all_one:
  assumes "length targets \<le> length words"
    and "\<exists>s \<in> set targets. \<exists>l \<in> set s. l \<in> set SE"
  shows "measure_quality targets targets words =
           Inr [(ascii ''Precision'', 1), (ascii ''Recall'', 1), (ascii ''F1'', 1),
                (ascii ''Accuracy'', 1), (ascii ''Word accuracy'', 1)]"
proof -
  from assms(2) obtain s l where sl: "s \<in> set targets" "l \<in> set s" "l \<in> set SE" by blast
  have p: "0 < (\<Sum>s\<leftarrow>targets. int (length (boundary_positions s)))"
       "0 < (\<Sum>s\<leftarrow>targets. int (length s))"
    using sum_bp_pos[OF sl] by auto
  have n: "0 < length targets" using sl(1) by (cases targets) auto
  show ?thesis
    using p n
    by (simp add: measure_quality_def measure_loop_same[OF assms(1)] counters_init_def truediv_def)
qed

theorem identical_all_one_witness:
  "length [gold_example] \<le> length [example_parsed]
   \<and> (\<exists>s \<in> set [gold_example]. \<exists>l \<in> set s. l \<in> set SE)
   \<and> measure_quality [gold_example] [gold_example] [example_parsed] =
           Inr [(ascii ''Precision'', 1), (ascii ''Recall'', 1), (ascii ''F1'', 1),
                (ascii ''Accuracy'', 1), (ascii ''Word accuracy'', 1)]"
proof -
  have a: "length [gold_example] \<le> length [example_parsed]" by simp
  have "PyStr (ascii ''E-PREF'') \<in> set gold_example" by (simp add: gold_example_def)
  moreover have "PyStr (ascii ''E-PREF'') \<in> set SE" by (simp add: set_SE)
  ultimately have b: "\<exists>s \<in> set [gold_example]. \<exists>l \<in> set s. l \<in> set SE" by auto
  from identical_all_one[OF a b] a b show ?thesis by blast
qed

section \<open>C8: a zero denominator\<close>

text \<open>
  C8. When a denominator is zero, that is TP + FP, TP + FN, TP + 0.5 (FP + FN), the total
  gold length, or the number of gold sequences, \<^verbatim>\<open>measure_quality\<close> returns no numbers: it
  raises ZeroDivisionError.
\<close>

theorem undefined_metric:
  assumes "c = measure_loop counters_init targets predicted_targets words"
    and "TP c + FP c = 0 \<or> TP c + FN c = 0
         \<or> (of_int (TP c) :: rat) + (1 / 2) * of_int (FP c + FN c) = 0
         \<or> total_n c = 0 \<or> length targets = 0"
  shows "measure_quality predicted_targets targets words = Inl ZeroDivisionError"
  using assms by (rule measure_quality_zero)

theorem undefined_metric_witness:
  "length ([] :: pyval list list) = 0 \<and> measure_quality [] [] [] = Inl ZeroDivisionError
   \<and> TP (measure_loop counters_init [hyphen_labels] [hyphen_labels] [hyphen_word])
       + FP (measure_loop counters_init [hyphen_labels] [hyphen_labels] [hyphen_word]) = 0
   \<and> measure_quality [hyphen_labels] [hyphen_labels] [hyphen_word] = Inl ZeroDivisionError"
proof -
  have 1: "measure_quality [] [] [] = Inl ZeroDivisionError"
    using undefined_metric[OF refl, of "[]" "[]" "[]"] by simp
  have 2: "TP (measure_loop counters_init [hyphen_labels] [hyphen_labels] [hyphen_word])
       + FP (measure_loop counters_init [hyphen_labels] [hyphen_labels] [hyphen_word]) = 0"
    unfolding hyphen_counters by simp
  have 3: "measure_quality [hyphen_labels] [hyphen_labels] [hyphen_word] = Inl ZeroDivisionError"
    using undefined_metric[OF refl, of "[hyphen_labels]" "[hyphen_labels]" "[hyphen_word]"] 2 by blast
  from 1 2 3 show ?thesis by simp
qed

section \<open>C7: lists of different lengths\<close>

text \<open>
  Against C7 as stated: with one predicted sequence, two gold sequences and two words,
  \<^verbatim>\<open>measure_quality\<close> raises nothing. It scores the first pair only and returns
  Precision, Recall, F1 and Accuracy 1 and Word accuracy 1/2.
\<close>

theorem length_mismatch_counterexample:
  "length short_pred \<noteq> length two_gold
   \<and> measure_quality short_pred two_gold two_words =
       Inr [(ascii ''Precision'', 1), (ascii ''Recall'', 1), (ascii ''F1'', 1),
            (ascii ''Accuracy'', 1), (ascii ''Word accuracy'', 1 / 2)]"
proof -
  have "measure_loop counters_init two_gold short_pred two_words =
     \<lparr> TP = 2, FP = 0, FN = 0, equal_n = 6, total_n = 6, corr_words = 1 \<rparr>"
    by code_simp
  then show ?thesis
    by (simp add: measure_quality_def truediv_def short_pred_def two_gold_def)
qed

text \<open>
  C7, amended. When the three lists do not all have the same length, the scorer signals no
  length error: its loop runs over the zip of the three lists, so the counters are those of
  the lists cut to the shortest length n. \<^verbatim>\<open>measure_quality\<close> raises ZeroDivisionError when
  a denominator is zero, and otherwise returns the five quotients of these counters, with
  Word accuracy still divided by the full \<^verbatim>\<open>len(targets)\<close>, not by n.
\<close>

theorem length_mismatch_truncates:
  assumes "\<not> (length predicted_targets = length targets \<and> length targets = length words)"
  shows "measure_loop counters_init targets predicted_targets words =
           measure_loop counters_init
             (take (min (length targets) (min (length predicted_targets) (length words))) targets)
             (take (min (length targets) (min (length predicted_targets) (length words))) predicted_targets)
             (take (min (length targets) (min (length predicted_targets) (length words))) words)
         \<and> (measure_quality predicted_targets targets words = Inl ZeroDivisionError
            \<or> (\<exists>r. measure_quality predicted_targets targets words = Inr r))
         \<and> measure_quality predicted_targets targets words =
             (let n = min (length targets) (min (length predicted_targets) (length words));
                  c = measure_loop counters_init
                        (take n targets) (take n predicted_targets) (take n words)
              in if TP c + FP c = 0 \<or> TP c + FN c = 0
                    \<or> (of_int (TP c) :: rat) + (1 / 2) * of_int (FP c + FN c) = 0
                    \<or> total_n c = 0 \<or> length targets = 0
                 then Inl ZeroDivisionError
                 else Inr [(ascii ''Precision'', of_int (TP c) / of_int (TP c + FP c)),
                           (ascii ''Recall'', of_int (TP c) / of_int (TP c + FN c)),
                           (ascii ''F1'',
                              of_int (TP c) / (of_int (TP c) + (1 / 2) * of_int (FP c + FN c))),
                           (ascii ''Accuracy'', of_int (equal_n c) / of_int (total_n c)),
                           (ascii ''Word accuracy'',
                              of_int (corr_words c) / of_nat (length targets))])"
proof -
  let ?n = "min (length targets) (min (length predicted_targets) (length words))"
  have t: "measure_loop counters_init targets predicted_targets words =
           measure_loop counters_init (take ?n targets) (take ?n predicted_targets) (take ?n words)"
    by (rule measure_loop_take)
  have e: "measure_quality predicted_targets targets words = Inl ZeroDivisionError
            \<or> (\<exists>r. measure_quality predicted_targets targets words = Inr r)"
    using measure_quality_error[of predicted_targets targets words]
    by (cases "measure_quality predicted_targets targets words") auto
  have u: "measure_quality predicted_targets targets words =
             (let n = ?n;
                  c = measure_loop counters_init
                        (take n targets) (take n predicted_targets) (take n words)
              in if TP c + FP c = 0 \<or> TP c + FN c = 0
                    \<or> (of_int (TP c) :: rat) + (1 / 2) * of_int (FP c + FN c) = 0
                    \<or> total_n c = 0 \<or> length targets = 0
                 then Inl ZeroDivisionError
                 else Inr [(ascii ''Precision'', of_int (TP c) / of_int (TP c + FP c)),
                           (ascii ''Recall'', of_int (TP c) / of_int (TP c + FN c)),
                           (ascii ''F1'',
                              of_int (TP c) / (of_int (TP c) + (1 / 2) * of_int (FP c + FN c))),
                           (ascii ''Accuracy'', of_int (equal_n c) / of_int (total_n c)),
                           (ascii ''Word accuracy'',
                              of_int (corr_words c) / of_nat (length targets))])"
    unfolding measure_quality_unfold[of predicted_targets targets words] Let_def t[symmetric] ..
  from t e u show ?thesis by (intro conjI)
qed

theorem length_mismatch_truncates_witness:
  "\<not> (length short_pred = length two_gold \<and> length two_gold = length two_words)
   \<and> measure_loop counters_init two_gold short_pred two_words =
       measure_loop counters_init (take 1 two_gold) (take 1 short_pred) (take 1 two_words)
   \<and> (measure_quality short_pred two_gold two_words = Inl ZeroDivisionError
      \<or> (\<exists>r. measure_quality short_pred two_gold two_words = Inr r))
   \<and> measure_loop counters_init (take 1 two_gold) (take 1 short_pred) (take 1 two_words) =
       \<lparr> TP = 2, FP = 0, FN = 0, equal_n = 6, total_n = 6, corr_words = 1 \<rparr>
   \<and> length two_gold = 2
   \<and> measure_quality short_pred two_gold two_words =
       Inr [(ascii ''Precision'', 1), (ascii ''Recall'', 1), (ascii ''F1'', 1),
            (ascii ''Accuracy'', 1), (ascii ''Word accuracy'', 1 / 2)]"
proof -
  have a: "\<not> (length short_pred = length two_gold \<and> length two_gold = length two_words)"
    by (simp add: short_pred_def two_gold_def)
  have m: "min (length two_gold) (min (length short_pred) (length two_words)) = 1"
    by (simp add: short_pred_def two_gold_def two_words_def)
  have c: "measure_loop counters_init (take 1 two_gold) (take 1 short_pred) (take 1 two_words) =
       \<lparr> TP = 2, FP = 0, FN = 0, equal_n = 6, total_n = 6, corr_words = 1 \<rparr>"
    by code_simp
  have l: "length two_gold = 2"
    by (simp add: two_gold_def)
  note th = length_mismatch_truncates[OF a, unfolded m Let_def c]
  from th have 1: "measure_loop counters_init two_gold short_pred two_words =
       \<lparr> TP = 2, FP = 0, FN = 0, equal_n = 6, total_n = 6, corr_words = 1 \<rparr>"
    by blast
  from th have 2: "measure_quality short_pred two_gold two_words = Inl ZeroDivisionError
      \<or> (\<exists>r. measure_quality short_pred two_gold two_words = Inr r)"
    by blast
  from th have 3: "measure_quality short_pred two_gold two_words =
       Inr [(ascii ''Precision'', 1), (ascii ''Recall'', 1), (ascii ''F1'', 1),
            (ascii ''Accuracy'', 1), (ascii ''Word accuracy'', 1 / 2)]"
    by (simp add: l)
  from a 1 2 3 c l show ?thesis by simp
qed

section \<open>The decoder: auxiliary facts\<close>

lemma transform_loop_prev:
  "pre \<noteq> [] \<Longrightarrow>
   transform_loop (pre @ rest) (length pre - 1) rest parts cur = loop_prev (last pre) rest parts cur"
proof (induction rest arbitrary: pre parts cur)
  case Nil
  then show ?case by simp
next
  case (Cons letter rest)
  have nth: "(pre @ letter # rest) ! (length pre - 1) = last pre"
    using Cons.prems by (simp add: nth_append last_conv_nth)
  have step: "\<And>ps c. transform_loop (pre @ letter # rest) (length pre - 1 + 1) rest ps c
     = loop_prev letter rest ps c"
    using Cons.IH[of "pre @ [letter]"] Cons.prems by simp
  show ?case
    apply (subst transform_loop.simps)
    apply (subst loop_prev.simps)
    apply (simp only: Let_def add_diff_cancel_right' nth step)
    done
qed

lemma loop_prev_step_ext:
  "extends p l \<Longrightarrow>
   loop_prev (PyStr p) (PyStr l # rest) parts cur = loop_prev (PyStr l) rest parts (cur @ [PyStr l])"
  by (auto simp: extends_def ascii_def)

lemma loop_prev_step_new:
  "\<not> extends p l \<Longrightarrow>
   loop_prev (PyStr p) (PyStr l # rest) parts cur = loop_prev (PyStr l) rest (parts @ [cur]) [PyStr l]"
  by (auto simp: extends_def ascii_def)

lemma loop_prev_strs:
  "loop_prev (PyStr p) (map PyStr rest) (map (map PyStr) parts) (map PyStr cur)
     = Inr (map (map PyStr) (fst (group_strs p rest parts cur)),
            map PyStr (snd (group_strs p rest parts cur)))"
proof (induction rest arbitrary: p parts cur)
  case Nil
  then show ?case by simp
next
  case (Cons letter rest)
  show ?case
  proof (cases "extends p letter")
    case True
    then show ?thesis
      using Cons.IH[of letter parts "cur @ [letter]"] by (simp add: loop_prev_step_ext del: loop_prev.simps)
  next
    case False
    then show ?thesis
      using Cons.IH[of letter "parts @ [cur]" "[letter]"] by (simp add: loop_prev_step_new del: loop_prev.simps)
  qed
qed

lemma mark_middle_strs:
  "mark_middle (map PyStr ms) (length done) (b # done @ map PyStr ms @ rest)
     = Inr (b # done @ map (\<lambda>m. PyStr (ascii ''M-'' @ m)) ms @ rest)"
proof (induction ms arbitrary: "done")
  case Nil
  then show ?case by simp
next
  case (Cons m ms)
  have upd: "(b # done @ PyStr m # map PyStr ms @ rest)[Suc (length done) := PyStr (ascii ''M-'' @ m)]
      = b # (done @ [PyStr (ascii ''M-'' @ m)]) @ map PyStr ms @ rest"
    by (simp add: list_update_append)
  show ?case
    using Cons.IH[of "done @ [PyStr (ascii ''M-'' @ m)]"]
    by (simp add: str_add_def upd del: list_update.simps)
qed

lemma relabel_part_single:
  "relabel_part [PyStr x] = Inr [PyStr (ascii ''S-'' @ norm_first x)]"
  by (simp add: relabel_part_def norm_first_def Let_def ascii_def str_add_def)

lemma relabel_part_longer:
  "relabel_part (PyStr x # ys @ [PyStr y]) =
     mark_middle ys 0 (PyStr (ascii ''B-'' @ norm_first x) # ys @ [PyStr (ascii ''E-'' @ y)])"
  by (simp add: relabel_part_def norm_first_def Let_def ascii_def str_add_def list_update_append)

lemma relabel_part_strs:
  "part \<noteq> [] \<Longrightarrow> relabel_part (map PyStr part) = Inr (map PyStr (relabel_strs part))"
proof (cases part)
  case Nil
  assume "part \<noteq> []"
  with Nil show ?thesis by simp
next
  case (Cons x xs)
  show ?thesis
  proof (cases xs rule: rev_cases)
    case Nil
    with Cons show ?thesis
      by (simp add: relabel_part_single)
  next
    case (snoc ys y)
    have mm: "mark_middle (map PyStr ys) 0 (PyStr (ascii ''B-'' @ norm_first x) # map PyStr ys @ [PyStr (ascii ''E-'' @ y)])
       = Inr (PyStr (ascii ''B-'' @ norm_first x) # map (\<lambda>m. PyStr (ascii ''M-'' @ m)) ys @ [PyStr (ascii ''E-'' @ y)])"
      using mark_middle_strs[of ys "[]" _ "[PyStr (ascii ''E-'' @ y)]"] by simp
    have rs: "relabel_strs (x # ys @ [y]) = (ascii ''B-'' @ norm_first x) # map (\<lambda>m. ascii ''M-'' @ m) ys @ [ascii ''E-'' @ y]"
      by (cases ys) auto
    have "relabel_part (map PyStr part) = relabel_part (PyStr x # map PyStr ys @ [PyStr y])"
      using Cons snoc by simp
    also have "\<dots> = Inr (PyStr (ascii ''B-'' @ norm_first x) # map (\<lambda>m. PyStr (ascii ''M-'' @ m)) ys @ [PyStr (ascii ''E-'' @ y)])"
      by (simp only: relabel_part_longer mm)
    also have "\<dots> = Inr (map PyStr (relabel_strs part))"
      using Cons snoc by (simp add: rs comp_def)
    finally show ?thesis .
  qed
qed

lemma relabel_parts_strs:
  "[] \<notin> set parts \<Longrightarrow>
   relabel_parts (map (map PyStr) parts) = Inr (map (map PyStr) (map relabel_strs parts))"
  by (induction parts) (auto simp: relabel_part_strs)

lemma group_strs_nonempty:
  "[] \<notin> set parts \<Longrightarrow> cur \<noteq> [] \<Longrightarrow>
   [] \<notin> set (fst (group_strs p rest parts cur)) \<and> snd (group_strs p rest parts cur) \<noteq> []"
  by (induction p rest parts cur rule: group_strs.induct) auto

lemma group_strs_concat:
  "concat (fst (group_strs p rest parts cur)) @ snd (group_strs p rest parts cur)
     = concat parts @ cur @ rest"
  by (induction p rest parts cur rule: group_strs.induct) auto

lemma transform_classification_strs:
  assumes "xs \<noteq> []"
  shows "transform_classification (map PyStr xs) = Inr (map PyStr (decode_strs xs))"
proof -
  from assms obtain x rest where xs: "xs = x # rest" by (cases xs) auto
  have "transform_loop (map PyStr xs) 0 (tl (map PyStr xs)) [] [map PyStr xs ! 0]
      = loop_prev (PyStr x) (map PyStr rest) [] [PyStr x]"
    using transform_loop_prev[of "[PyStr x]" "map PyStr rest" "[]" "[PyStr x]"] xs by simp
  also have "\<dots> = Inr (map (map PyStr) (fst (group_strs x rest [] [x])),
            map PyStr (snd (group_strs x rest [] [x])))"
    using loop_prev_strs[of x rest "[]" "[x]"] by simp
  finally have loop: "transform_loop (map PyStr xs) 0 (tl (map PyStr xs)) [] [map PyStr xs ! 0]
     = Inr (map (map PyStr) (fst (group_strs x rest [] [x])),
            map PyStr (snd (group_strs x rest [] [x])))" .
  have ne: "[] \<notin> set (fst (group_strs x rest [] [x]) @ [snd (group_strs x rest [] [x])])"
    using group_strs_nonempty[of "[]" "[x]" x rest] by auto
  have rp: "relabel_parts (map (map PyStr) (fst (group_strs x rest [] [x])) @ [map PyStr (snd (group_strs x rest [] [x]))])
     = Inr (map (map PyStr) (map relabel_strs (fst (group_strs x rest [] [x]) @ [snd (group_strs x rest [] [x])])))"
    using relabel_parts_strs[OF ne] by simp
  have cur: "snd (group_strs x rest [] [x]) \<noteq> []"
    using group_strs_nonempty[of "[]" "[x]" x rest] by auto
  show ?thesis
    unfolding transform_classification_def loop
    using assms cur rp
    by (simp add: decode_strs_def xs split_beta map_concat del: relabel_parts.simps)
qed

lemma length_relabel_strs: "length (relabel_strs p) = length p"
  by (induction p rule: relabel_strs.induct) auto

lemma length_concat_relabel: "length (concat (map relabel_strs ps)) = length (concat ps)"
  by (induction ps) (auto simp: length_relabel_strs)

lemma relabel_strs_prefixed:
  "y \<in> set (relabel_strs p) \<Longrightarrow>
   prefix (ascii ''S-'') y \<or> prefix (ascii ''B-'') y \<or> prefix (ascii ''M-'') y \<or> prefix (ascii ''E-'') y"
  by (induction p rule: relabel_strs.induct) auto

lemma length_decode_strs: "xs \<noteq> [] \<Longrightarrow> length (decode_strs xs) = length xs"
proof -
  assume "xs \<noteq> []"
  then have "concat (fst (group_strs (hd xs) (tl xs) [] [hd xs])) @ snd (group_strs (hd xs) (tl xs) [] [hd xs]) = xs"
    using group_strs_concat[of "hd xs" "tl xs" "[]" "[hd xs]"] by simp
  then have "length (concat (fst (group_strs (hd xs) (tl xs) [] [hd xs]) @ [snd (group_strs (hd xs) (tl xs) [] [hd xs])])) = length xs"
    by (metis append_Nil2 concat.simps(1) concat.simps(2) concat_append)
  then show ?thesis
    by (simp add: decode_strs_def split_beta length_concat_relabel del: concat_append map_append)
qed

lemma decode_strs_prefixed:
  "y \<in> set (decode_strs xs) \<Longrightarrow>
   prefix (ascii ''S-'') y \<or> prefix (ascii ''B-'') y \<or> prefix (ascii ''M-'') y \<or> prefix (ascii ''E-'') y"
  unfolding decode_strs_def split_beta
  using relabel_strs_prefixed by auto

lemma label_value_kind_str: "l \<noteq> NONE \<Longrightarrow> label_value l = PyStr (kind_str l)"
  by (cases l) (simp_all add: kind_str_def)

lemma simple_labels_strs:
  assumes "morpheme_ok m"
  shows "Morpheme_get_simple_labels m = Inr (map PyStr (simple_strs m))"
proof -
  from assms have v: "label_value (label m) = PyStr (kind_str (label m))"
    by (simp add: morpheme_ok_def label_value_kind_str)
  from assms have n: "length_m m = length (part_text m)" "length (part_text m) \<ge> 1"
    by (auto simp: morpheme_ok_def Suc_le_eq)
  show ?thesis
    using n by (auto simp: Morpheme_get_simple_labels_ok[OF v] simple_strs_def marked_def)
qed

lemma full_labels_strs:
  assumes "morpheme_ok m"
  shows "Morpheme_get_labels m = Inr (map PyStr (full_strs m))"
proof -
  from assms have v: "label_value (label m) = PyStr (kind_str (label m))"
    by (simp add: morpheme_ok_def label_value_kind_str)
  from assms have n: "length_m m = length (part_text m)"
    by (auto simp: morpheme_ok_def)
  show ?thesis
    using n by (simp add: Morpheme_get_labels_ok[OF v] full_strs_def)
qed

lemma simple_loop_strs:
  "list_all morpheme_ok ms \<Longrightarrow>
   get_simple_labels_loop ms [] = Inr (map PyStr (concat (map simple_strs ms)))"
proof (induction ms)
  case Nil
  then show ?case by simp
next
  case (Cons m ms)
  then show ?case
    by (simp add: simple_labels_strs get_simple_labels_loop_acc[of ms "map PyStr (simple_strs m)"])
qed

lemma full_loop_strs:
  "list_all morpheme_ok ms \<Longrightarrow>
   get_labels_loop ms [] = Inr (map PyStr (concat (map full_strs ms)))"
proof (induction ms)
  case Nil
  then show ?case by simp
next
  case (Cons m ms)
  then show ?case
    by (simp add: full_labels_strs get_labels_loop_acc[of ms "map PyStr (full_strs m)"])
qed

lemma kind_str_no_B: "\<not> prefix (ascii ''B-'') (kind_str l)"
  by (cases l) (simp_all add: kind_str_def ascii_def)

lemma norm_first_kind: "norm_first (kind_str l) = kind_str l"
  by (cases l) (simp_all add: kind_str_def norm_first_def ascii_def)

lemma norm_first_marked: "marked l \<Longrightarrow> norm_first (ascii ''B-'' @ kind_str l) = kind_str l"
  by (cases l) (simp_all add: kind_str_def norm_first_def ascii_def marked_def)

lemma extends_marked: "marked l \<Longrightarrow> extends (ascii ''B-'' @ kind_str l) (kind_str l)"
  by (cases l) (simp_all add: kind_str_def extends_def ascii_def marked_def)

lemma extends_same: "extends (kind_str l) (kind_str l)"
  using kind_str_no_B by (simp add: extends_def)

lemma not_extends_B: "\<not> extends p (ascii ''B-'' @ kind_str l)"
  by (simp add: extends_def ascii_def)

lemma not_extends_other:
  "l \<noteq> NONE \<Longrightarrow> l' \<noteq> NONE \<Longrightarrow> \<not> marked l' \<Longrightarrow> l \<noteq> l' \<Longrightarrow>
   \<not> extends (kind_str l) (kind_str l') \<and> \<not> extends (ascii ''B-'' @ kind_str l) (kind_str l')"
  by (cases l; cases l') (simp_all add: kind_str_def extends_def ascii_def marked_def)

lemma group_strs_run:
  "extends v v \<Longrightarrow> (k > 0 \<Longrightarrow> extends p v) \<Longrightarrow>
   group_strs p (replicate k v @ tail) parts cur
     = group_strs (if k = 0 then p else v) tail parts (cur @ replicate k v)"
proof (induction k arbitrary: p cur)
  case 0
  then show ?case by simp
next
  case (Suc k)
  have "group_strs p (replicate (Suc k) v @ tail) parts cur
      = group_strs v (replicate k v @ tail) parts (cur @ [v])"
    using Suc.prems by simp
  also have "\<dots> = group_strs (if k = 0 then v else v) tail parts ((cur @ [v]) @ replicate k v)"
    using Suc.IH[of v "cur @ [v]"] Suc.prems(1) by simp
  finally show ?case by (simp add: replicate_app_Cons_same)
qed

lemma simple_strs_nonempty: "morpheme_ok m \<Longrightarrow> simple_strs m \<noteq> []"
  by (auto simp: simple_strs_def morpheme_ok_def)

lemma group_strs_morpheme:
  assumes "morpheme_ok m"
  shows "group_strs (hd (simple_strs m)) (tl (simple_strs m) @ tail) parts [hd (simple_strs m)]
     = group_strs (last (simple_strs m)) tail parts (simple_strs m)"
proof -
  let ?v = "kind_str (label m)"
  from assms obtain k where k: "length (part_text m) = Suc k"
    by (cases "part_text m") (auto simp: morpheme_ok_def)
  show ?thesis
  proof (cases "marked (label m)")
    case True
    have s: "simple_strs m = (ascii ''B-'' @ ?v) # replicate k ?v"
      using True k by (simp add: simple_strs_def)
    show ?thesis
      unfolding s
      using group_strs_run[where v = ?v and k = k and p = "ascii ''B-'' @ ?v" and tail = tail
            and parts = parts and cur = "[ascii ''B-'' @ ?v]"]
        extends_marked[OF True] extends_same[of "label m"]
      by (cases k) auto
  next
    case False
    have s: "simple_strs m = ?v # replicate k ?v"
      using False k by (simp add: simple_strs_def)
    show ?thesis
      unfolding s
      using group_strs_run[where v = ?v and k = k and p = ?v and tail = tail
            and parts = parts and cur = "[?v]"] extends_same[of "label m"]
      by (cases k) auto
  qed
qed

lemma boundary_not_extends:
  assumes "morpheme_ok m1" "morpheme_ok m2" "label m1 \<noteq> label m2 \<or> marked (label m2)"
  shows "\<not> extends (last (simple_strs m1)) (hd (simple_strs m2))"
proof -
  from assms(2) obtain k2 where k2: "length (part_text m2) = Suc k2"
    by (cases "part_text m2") (auto simp: morpheme_ok_def)
  from assms(1) obtain k1 where k1: "length (part_text m1) = Suc k1"
    by (cases "part_text m1") (auto simp: morpheme_ok_def)
  have l1: "last (simple_strs m1) = kind_str (label m1)
            \<or> last (simple_strs m1) = ascii ''B-'' @ kind_str (label m1)"
    using k1 by (cases k1) (auto simp: simple_strs_def)
  show ?thesis
  proof (cases "marked (label m2)")
    case True
    then have "hd (simple_strs m2) = ascii ''B-'' @ kind_str (label m2)"
      by (simp add: simple_strs_def)
    then show ?thesis by (simp add: not_extends_B)
  next
    case False
    then have h: "hd (simple_strs m2) = kind_str (label m2)"
      using k2 by (simp add: simple_strs_def)
    from False assms(3) have ne: "label m1 \<noteq> label m2" by simp
    have "label m1 \<noteq> NONE" "label m2 \<noteq> NONE" using assms by (auto simp: morpheme_ok_def)
    from not_extends_other[OF this False ne] l1 h show ?thesis by auto
  qed
qed

lemma group_strs_word:
  "list_all morpheme_ok (m # ms) \<Longrightarrow> no_merge (m # ms) \<Longrightarrow>
   group_strs (last (simple_strs m)) (concat (map simple_strs ms)) parts (simple_strs m)
     = (parts @ butlast (map simple_strs (m # ms)), last (map simple_strs (m # ms)))"
proof (induction ms arbitrary: m parts)
  case Nil
  then show ?case by simp
next
  case (Cons m2 ms)
  have ok: "morpheme_ok m" "morpheme_ok m2" "list_all morpheme_ok (m2 # ms)"
    using Cons.prems(1) by auto
  have nm: "label m \<noteq> label m2 \<or> marked (label m2)" "no_merge (m2 # ms)"
    using Cons.prems(2) by (auto simp: marked_def)
  let ?s2 = "simple_strs m2"
  let ?rest = "concat (map simple_strs ms)"
  have s2: "?s2 = hd ?s2 # tl ?s2"
    using simple_strs_nonempty[OF ok(2)] by simp
  have "group_strs (last (simple_strs m)) (concat (map simple_strs (m2 # ms))) parts (simple_strs m)
     = group_strs (last (simple_strs m)) (hd ?s2 # (tl ?s2 @ ?rest)) parts (simple_strs m)"
    using s2 by (metis append_Cons concat.simps(2) list.simps(9))
  also have "\<dots> = group_strs (hd ?s2) (tl ?s2 @ ?rest) (parts @ [simple_strs m]) [hd ?s2]"
    using boundary_not_extends[OF ok(1) ok(2) nm(1)] by simp
  also have "\<dots> = group_strs (last ?s2) ?rest (parts @ [simple_strs m]) ?s2"
    by (rule group_strs_morpheme[OF ok(2)])
  also have "\<dots> = ((parts @ [simple_strs m]) @ butlast (map simple_strs (m2 # ms)),
                   last (map simple_strs (m2 # ms)))"
    by (rule Cons.IH[OF ok(3) nm(2)])
  finally show ?case by simp
qed

lemma relabel_strs_snoc:
  "relabel_strs (x # ys @ [y])
     = (ascii ''B-'' @ norm_first x) # map (\<lambda>m. ascii ''M-'' @ m) ys @ [ascii ''E-'' @ y]"
  by (cases ys) auto

lemma relabel_simple_full:
  assumes "morpheme_ok m"
  shows "relabel_strs (simple_strs m) = full_strs m"
proof -
  let ?v = "kind_str (label m)"
  from assms obtain k where k: "length (part_text m) = Suc k"
    by (cases "part_text m") (auto simp: morpheme_ok_def)
  have nf: "norm_first (hd (simple_strs m)) = ?v"
    using k by (auto simp: simple_strs_def norm_first_kind norm_first_marked)
  show ?thesis
  proof (cases k)
    case 0
    then show ?thesis using k nf
      by (auto simp: simple_strs_def full_strs_def)
  next
    case (Suc j)
    have r: "replicate (Suc j) ?v = replicate j ?v @ [?v]"
      by (simp add: replicate_append_same)
    have "simple_strs m = hd (simple_strs m) # replicate j ?v @ [?v]"
      using k Suc r by (auto simp: simple_strs_def)
    then have "relabel_strs (simple_strs m)
       = (ascii ''B-'' @ ?v) # map (\<lambda>m. ascii ''M-'' @ m) (replicate j ?v) @ [ascii ''E-'' @ ?v]"
      using nf relabel_strs_snoc[of "hd (simple_strs m)" "replicate j ?v" ?v] by simp
    then show ?thesis using k Suc by (simp add: full_strs_def)
  qed
qed

lemma decode_simple_strs:
  assumes "ms \<noteq> []" "list_all morpheme_ok ms" "no_merge ms"
  shows "decode_strs (concat (map simple_strs ms)) = concat (map full_strs ms)"
proof -
  from assms(1) obtain m rest where ms: "ms = m # rest" by (cases ms) auto
  have ok: "morpheme_ok m" using assms(2) ms by simp
  let ?s = "simple_strs m"
  let ?r = "concat (map simple_strs rest)"
  have s: "?s = hd ?s # tl ?s" using simple_strs_nonempty[OF ok] by simp
  have c: "concat (map simple_strs ms) = hd ?s # (tl ?s @ ?r)"
    using s ms by (metis append_Cons concat.simps(2) list.simps(9))
  have "group_strs (hd ?s) (tl ?s @ ?r) [] [hd ?s] = group_strs (last ?s) ?r [] ?s"
    by (rule group_strs_morpheme[OF ok])
  also have "\<dots> = ([] @ butlast (map simple_strs (m # rest)), last (map simple_strs (m # rest)))"
    using group_strs_word[of m rest "[]"] assms(2,3) ms by simp
  finally have g: "group_strs (hd ?s) (tl ?s @ ?r) [] [hd ?s]
       = (butlast (map simple_strs ms), last (map simple_strs ms))"
    using ms by simp
  have bl: "butlast (map simple_strs ms) @ [last (map simple_strs ms)] = map simple_strs ms"
    using assms(1) by simp
  have rl: "map relabel_strs (map simple_strs ms) = map full_strs ms"
    using assms(2) by (induction ms) (auto simp: relabel_simple_full)
  show ?thesis
    unfolding decode_strs_def c
    by (simp only: list.sel g prod.case bl rl)
qed

lemma simple_decodes_to_full:
  assumes "morphemes w \<noteq> []" "list_all morpheme_ok (morphemes w)" "no_merge (morphemes w)"
  shows "\<exists>ss ls. Word_get_simple_labels w = Inr ss \<and> Word_get_labels w = Inr ls
           \<and> transform_classification ss = Inr ls"
proof -
  let ?ss = "concat (map simple_strs (morphemes w))"
  have s: "Word_get_simple_labels w = Inr (map PyStr ?ss)"
    by (simp add: Word_get_simple_labels_def simple_loop_strs[OF assms(2)])
  have l: "Word_get_labels w = Inr (map PyStr (concat (map full_strs (morphemes w))))"
    by (simp add: Word_get_labels_def full_loop_strs[OF assms(2)])
  from assms(1) obtain m rest where ms: "morphemes w = m # rest" by (cases "morphemes w") auto
  then have "morpheme_ok m" using assms(2) by simp
  then have ne: "?ss \<noteq> []" using simple_strs_nonempty[of m] ms by simp
  have "transform_classification (map PyStr ?ss) = Inr (map PyStr (decode_strs ?ss))"
    by (rule transform_classification_strs[OF ne])
  then have "transform_classification (map PyStr ?ss)
      = Inr (map PyStr (concat (map full_strs (morphemes w))))"
    by (simp only: decode_simple_strs[OF assms])
  with s l show ?thesis by blast
qed

section \<open>C10: the decoder on any non-empty list of strings\<close>

text \<open>
  C10. For every non-empty list of label strings, well formed or not,
  \<^verbatim>\<open>_transform_classification\<close> returns a list of strings of the same length, each of
  which begins with \<^verbatim>\<open>S-\<close>, \<^verbatim>\<open>B-\<close>, \<^verbatim>\<open>M-\<close> or \<^verbatim>\<open>E-\<close>.
\<close>

theorem decoder_total:
  assumes "xs \<noteq> []"
  shows "\<exists>ys. transform_classification (map PyStr xs) = Inr (map PyStr ys)
           \<and> length ys = length xs
           \<and> (\<forall>y \<in> set ys. prefix (ascii ''S-'') y \<or> prefix (ascii ''B-'') y
                              \<or> prefix (ascii ''M-'') y \<or> prefix (ascii ''E-'') y)"
  using transform_classification_strs[OF assms] length_decode_strs[OF assms] decode_strs_prefixed
  by blast

theorem decoder_total_witness:
  "ill_formed \<noteq> []
   \<and> (\<exists>ys. transform_classification (map PyStr ill_formed) = Inr (map PyStr ys)
           \<and> length ys = length ill_formed
           \<and> (\<forall>y \<in> set ys. prefix (ascii ''S-'') y \<or> prefix (ascii ''B-'') y
                              \<or> prefix (ascii ''M-'') y \<or> prefix (ascii ''E-'') y))
   \<and> transform_classification (map PyStr ill_formed) =
       Inr (map (\<lambda>s. PyStr (ascii s))
             [''S-ROOT'', ''S-B-END'', ''B-SUFF'', ''E-SUFF'', ''S-PREF'', ''S-ROOT'', ''S-PREF''])"
proof -
  have a: "ill_formed \<noteq> []" by (simp add: ill_formed_def)
  have b: "transform_classification (map PyStr ill_formed) =
       Inr (map (\<lambda>s. PyStr (ascii s))
             [''S-ROOT'', ''S-B-END'', ''B-SUFF'', ''E-SUFF'', ''S-PREF'', ''S-ROOT'', ''S-PREF''])"
    by code_simp
  from decoder_total[OF a] a b show ?thesis by blast
qed

section \<open>C1: decoding the simple labels\<close>

text \<open>
  Against C1 as stated. The word of the two one-letter endings satisfies the invariants;
  its simple labels are END, END, which the decoder reads as one run and turns into B-END,
  E-END, while the full labels are S-END, S-END. The word without morphemes satisfies the
  invariants too; its simple labels are the empty list, on which the decoder raises
  IndexError, while the full labels are the empty list.
\<close>

theorem roundtrip_counterexample:
  "word_inv two_endings
   \<and> Word_get_simple_labels two_endings = Inr [PyStr (ascii ''END''), PyStr (ascii ''END'')]
   \<and> transform_classification [PyStr (ascii ''END''), PyStr (ascii ''END'')]
       = Inr [PyStr (ascii ''B-END''), PyStr (ascii ''E-END'')]
   \<and> Word_get_labels two_endings = Inr [PyStr (ascii ''S-END''), PyStr (ascii ''S-END'')]
   \<and> transform_classification [PyStr (ascii ''END''), PyStr (ascii ''END'')]
       \<noteq> Word_get_labels two_endings
   \<and> word_inv empty_word
   \<and> Word_get_simple_labels empty_word = Inr []
   \<and> transform_classification [] = Inl IndexError
   \<and> Word_get_labels empty_word = Inr []
   \<and> transform_classification [] \<noteq> Word_get_labels empty_word"
proof -
  have 1: "word_inv two_endings"
    by (simp add: word_inv_def two_endings_def Word_init_def Morpheme_init_def morpheme_ok_def)
  have 2: "Word_get_simple_labels two_endings = Inr [PyStr (ascii ''END''), PyStr (ascii ''END'')]"
    by code_simp
  have 3: "transform_classification [PyStr (ascii ''END''), PyStr (ascii ''END'')]
       = Inr [PyStr (ascii ''B-END''), PyStr (ascii ''E-END'')]"
    by code_simp
  have 4: "Word_get_labels two_endings = Inr [PyStr (ascii ''S-END''), PyStr (ascii ''S-END'')]"
    by code_simp
  have 5: "word_inv empty_word"
    by (simp add: word_inv_def empty_word_def Word_init_def)
  have 6: "Word_get_simple_labels empty_word = Inr []"
    by (simp add: Word_get_simple_labels_def empty_word_def Word_init_def)
  have 7: "transform_classification [] = Inl IndexError"
    by (simp add: transform_classification_def)
  have 8: "Word_get_labels empty_word = Inr []"
    by (simp add: Word_get_labels_def empty_word_def Word_init_def)
  have 9: "transform_classification [PyStr (ascii ''END''), PyStr (ascii ''END'')]
       \<noteq> Word_get_labels two_endings"
    unfolding 3 4 by (simp add: ascii_def)
  have 10: "transform_classification [] \<noteq> Word_get_labels empty_word"
    unfolding 7 8 by simp
  from 1 2 3 4 5 6 7 8 9 10 show ?thesis by blast
qed

text \<open>
  C1, amended. For every word that satisfies the invariants (each morpheme as the
  constructor leaves it, with a non-empty text and a kind other than NONE, the morphemes
  contiguous from offset 0), that has at least one morpheme, and in which no two adjacent
  morphemes share a kind other than PREF, ROOT and SUFF, both encodings return, and
  decoding the simple label sequence gives exactly the full label sequence.
\<close>

theorem roundtrip:
  assumes "word_inv w" "morphemes w \<noteq> []" "no_merge (morphemes w)"
  shows "\<exists>ss ls. Word_get_simple_labels w = Inr ss \<and> Word_get_labels w = Inr ls
           \<and> transform_classification ss = Inr ls"
  using assms simple_decodes_to_full[of w] by (simp add: word_inv_def)

theorem roundtrip_witness:
  "word_inv example_word \<and> morphemes example_word \<noteq> [] \<and> no_merge (morphemes example_word)
   \<and> (\<exists>ss ls. Word_get_simple_labels example_word = Inr ss \<and> Word_get_labels example_word = Inr ls
           \<and> transform_classification ss = Inr ls)
   \<and> Word_get_simple_labels example_word =
       Inr (map (\<lambda>s. PyStr (ascii s))
             [''B-PREF'', ''PREF'', ''PREF'', ''B-ROOT'', ''ROOT'', ''ROOT'', ''ROOT'',
              ''B-SUFF'', ''END'', ''END''])
   \<and> Word_get_labels example_word =
       Inr (map (\<lambda>s. PyStr (ascii s))
             [''B-PREF'', ''M-PREF'', ''E-PREF'', ''B-ROOT'', ''M-ROOT'', ''M-ROOT'',
              ''E-ROOT'', ''S-SUFF'', ''B-END'', ''E-END''])"
proof -
  have a: "word_inv example_word"
    by (simp add: word_inv_def example_word_def Word_init_def Morpheme_init_def morpheme_ok_def)
  have b: "morphemes example_word \<noteq> []"
    by (simp add: example_word_def Word_init_def)
  have c: "no_merge (morphemes example_word)"
    by (simp add: example_word_def Word_init_def Morpheme_init_def)
  have d: "Word_get_simple_labels example_word =
       Inr (map (\<lambda>s. PyStr (ascii s))
             [''B-PREF'', ''PREF'', ''PREF'', ''B-ROOT'', ''ROOT'', ''ROOT'', ''ROOT'',
              ''B-SUFF'', ''END'', ''END''])"
    by code_simp
  have e: "Word_get_labels example_word =
       Inr (map (\<lambda>s. PyStr (ascii s))
             [''B-PREF'', ''M-PREF'', ''E-PREF'', ''B-ROOT'', ''M-ROOT'', ''M-ROOT'',
              ''E-ROOT'', ''S-SUFF'', ''B-END'', ''E-END''])"
    by code_simp
  from roundtrip[OF a b c] a b c d e show ?thesis by blast
qed

end
